theory Spec2Isabelle
  imports Main "HOL-Library.Word"
begin

section \<open>Strings and numbers as Python prints them\<close>

text \<open>
  A Python \<open>str\<close> is modelled as a \<open>string\<close>. The characters the program looks at (the
  class \<open>[A-Za-z0-9_]\<close>, the dot, the dash and the newline) are ASCII, so it makes no
  difference to any match whether a non-ASCII file name is read as bytes or as code points.
  \<open>str_nat\<close> is \<open>str(n)\<close> for a natural number, as the f-strings of the error messages
  use it for \<open>len(...)\<close>.
\<close>

definition digit_char :: "nat \<Rightarrow> char" where
  "digit_char d = ''0123456789'' ! d"

fun str_nat :: "nat \<Rightarrow> string" where
  "str_nat n = (if n < 10 then [digit_char n] else str_nat (n div 10) @ [digit_char (n mod 10)])"

declare str_nat.simps [simp del]

definition newline :: char where
  "newline = CHR 0x0A"

definition endswith :: "string \<Rightarrow> string \<Rightarrow> bool" where
  "endswith s suffix \<longleftrightarrow>
     length suffix \<le> length s \<and> drop (length s - length suffix) s = suffix"

definition path_join :: "string \<Rightarrow> string \<Rightarrow> string" where
  \<comment> \<open>\<open>os.path.join(a, b)\<close> on POSIX, two components\<close>
  "path_join a b =
     (if b \<noteq> [] \<and> hd b = CHR ''/'' then b
      else if a = [] \<or> last a = CHR ''/'' then a @ b
      else a @ ''/'' @ b)"

section \<open>The four naming patterns\<close>

text \<open>
  The patterns of \<open>check_project_structure\<close> are
  \<^verbatim>\<open>^(?P<inv>[A-Za-z0-9_]+)-source\..+$\<close>, \<^verbatim>\<open>^(?P<inv>[A-Za-z0-9_]+)-raw\..+$\<close>,
  \<^verbatim>\<open>^(?P<inv>[A-Za-z0-9_]+)\.tsv$\<close> and \<^verbatim>\<open>^(?P<inv>[A-Za-z0-9_]+)\.yml$\<close>, applied with
  \<open>pattern.match(file)\<close>. They are modelled piece by piece, with the backtracking of the
  matcher written out: \<open>greedy_plus p s\<close> lists every way \<open>[p]+\<close> can match at the start
  of \<open>s\<close> (what it matched, what is left), longest first; \<open>inv_pattern\<close> takes the first of
  them after which the rest of the pattern matches, and returns the group \<open>inv\<close>.
  \<open>at_end\<close> is \<open>$\<close> without the MULTILINE flag: the end of the string, or the position
  just before a newline that ends the string. The dot matches every character but a newline.
\<close>

definition word_char :: "char \<Rightarrow> bool" where
  "word_char c \<longleftrightarrow>
     c \<in> set ''ABCDEFGHIJKLMNOPQRSTUVWXYZabcdefghijklmnopqrstuvwxyz0123456789_''"

definition greedy_plus :: "(char \<Rightarrow> bool) \<Rightarrow> string \<Rightarrow> (string \<times> string) list" where
  "greedy_plus p s =
     map (\<lambda>n. (take n s, drop n s)) (rev [1..<Suc (length (takeWhile p s))])"

definition literal :: "string \<Rightarrow> string \<Rightarrow> string option" where
  "literal l s = (if take (length l) s = l then Some (drop (length l) s) else None)"

definition at_end :: "string \<Rightarrow> bool" where
  "at_end s \<longleftrightarrow> s = [] \<or> s = [newline]"

definition any_plus_end :: "string \<Rightarrow> bool" where
  \<comment> \<open>\<^verbatim>\<open>.+$\<close>\<close>
  "any_plus_end s = list_ex (\<lambda>(m, rest). at_end rest) (greedy_plus (\<lambda>c. c \<noteq> newline) s)"

definition inv_pattern :: "string \<Rightarrow> (string \<Rightarrow> bool) \<Rightarrow> string \<Rightarrow> string option" where
  \<comment> \<open>\<^verbatim>\<open>^(?P<inv>[A-Za-z0-9_]+)\<close>, then the literal \<open>l\<close>, then \<open>tail\<close>; the result is \<open>m.group('inv')\<close>\<close>
  "inv_pattern l tail s =
     map_option fst
       (find (\<lambda>(m, rest). case literal l rest of None \<Rightarrow> False | Some r \<Rightarrow> tail r)
          (greedy_plus word_char s))"

definition source_pattern :: "string \<Rightarrow> string option" where
  "source_pattern = inv_pattern ''-source.'' any_plus_end"

definition raw_pattern :: "string \<Rightarrow> string option" where
  "raw_pattern = inv_pattern ''-raw.'' any_plus_end"

definition tidy_pattern :: "string \<Rightarrow> string option" where
  "tidy_pattern = inv_pattern ''.tsv'' at_end"

definition sidecar_pattern :: "string \<Rightarrow> string option" where
  "sidecar_pattern = inv_pattern ''.yml'' at_end"

definition fullmatch_word_plus :: "string \<Rightarrow> bool" where
  \<comment> \<open>\<^verbatim>\<open>re.fullmatch(r"[A-Za-z0-9_]+", inv)\<close>\<close>
  "fullmatch_word_plus s = list_ex (\<lambda>(m, rest). rest = []) (greedy_plus word_char s)"

datatype role = Source | Raw | Tidy | Sidecar

fun first_match :: "(role \<times> (string \<Rightarrow> string option)) list \<Rightarrow> string \<Rightarrow> (role \<times> string) option" where
  "first_match [] file = None"
| "first_match ((ftype, pattern) # ps) file =
     (case pattern file of Some inv_name \<Rightarrow> Some (ftype, inv_name) | None \<Rightarrow> first_match ps file)"

definition classify_file :: "string \<Rightarrow> (role \<times> string) option" where
  \<comment> \<open>the inner \<open>for ftype, pattern in [...]\<close> with its \<open>break\<close>; \<open>None\<close> is \<open>matched = False\<close>\<close>
  "classify_file file =
     first_match [(Source, source_pattern), (Raw, raw_pattern),
                  (Tidy, tidy_pattern), (Sidecar, sidecar_pattern)] file"

section \<open>The project directory\<close>

text \<open>
  What the program reads of the file system: whether \<open>README.md\<close> is a file at the project
  root, and the entries of \<open>data/\<close> in the order \<open>os.listdir\<close> returns them (\<open>None\<close> when
  \<open>data\<close> is not a directory). An entry is a regular file, a directory, or neither
  (a symbolic link to nothing); a regular file holds its bytes, or the text of the
  \<open>OSError\<close> that \<open>open\<close> raises on it. The names of a directory are distinct, and
  \<open>os.path.isfile(os.path.join(data_path, name))\<close> is a lookup of \<open>name\<close> among them,
  written \<open>map_of d name\<close>. A directory that cannot be listed makes \<open>os.listdir\<close>
  raise, which neither command catches; that run is not modelled.
\<close>

type_synonym byte = "8 word"

datatype regular_file = Content "byte list" | Unreadable string

datatype entry = Regular regular_file | Directory | Other

type_synonym listing = "(string \<times> entry) list"

record project =
  cwd :: string
  readme :: bool
  data :: "listing option"

fun isdir :: "entry option \<Rightarrow> bool" where
  "isdir (Some Directory) = True"
| "isdir _ = False"

fun isfile :: "entry option \<Rightarrow> bool" where
  "isfile (Some (Regular f)) = True"
| "isfile _ = False"

fun open_file :: "string \<Rightarrow> entry option \<Rightarrow> string + byte list" where
  \<comment> \<open>\<open>open(path)\<close> and reading all of it: the bytes, or \<open>str(e)\<close> of the exception\<close>
  "open_file path (Some (Regular (Content bs))) = Inr bs"
| "open_file path (Some (Regular (Unreadable msg))) = Inl msg"
| "open_file path (Some Directory) = Inl (''[Errno 21] Is a directory: '' @ [CHR 0x27] @ path @ [CHR 0x27])"
| "open_file path (Some Other) = Inl (''[Errno 2] No such file or directory: '' @ [CHR 0x27] @ path @ [CHR 0x27])"
| "open_file path None = Inl (''[Errno 2] No such file or directory: '' @ [CHR 0x27] @ path @ [CHR 0x27])"

section \<open>Reading the first line of a text file\<close>

text \<open>
  \<open>open(path, encoding='utf-8')\<close> followed by \<open>f.readline()\<close>, as \<open>io.TextIOWrapper\<close>
  does it: the file is read in chunks of 8192 bytes, every chunk read is decoded whole
  by the strict incremental UTF-8 decoder (an incomplete sequence at the end of a chunk
  waits for the next one, and so does \<open>ED\<close> followed by a byte of \<open>A0..BF\<close> when the
  chunk ends there; at the end of the file either is an error), line ends are
  translated (\<open>\r\n\<close> and \<open>\r\<close> become \<open>\n\<close>, a \<open>\r\<close> that ends a chunk is held back), and
  chunks are read until the decoded text holds a line end or the file ends. The result is
  the list of code points of the line, or \<open>None\<close> for \<open>UnicodeDecodeError\<close>.
\<close>

datatype utf8_state = Start | Continue nat nat byte byte | After_ED | Truncated_surrogate
  \<comment> \<open>\<open>Continue\<close>: bytes still expected, bits of the code point so far, bounds of the next
      byte. \<open>After_ED\<close>: the lead byte \<open>ED\<close> was read. \<open>Truncated_surrogate\<close>: \<open>ED\<close> and
      a byte of \<open>A0..BF\<close> were read, the start of an encoded surrogate: the decoder holds
      the two bytes back when the chunk ends with them, and fails on any byte after them.\<close>

definition lead_byte :: "byte \<Rightarrow> (utf8_state \<times> nat list) option" where
  "lead_byte b =
     (if b < 0x80 then Some (Start, [unat b])
      else if b < 0xC2 then None
      else if b < 0xE0 then Some (Continue 1 (unat b - 0xC0) 0x80 0xBF, [])
      else if b = 0xED then Some (After_ED, [])
      else if b < 0xF0 then
        Some (Continue 2 (unat b - 0xE0) (if b = 0xE0 then 0xA0 else 0x80) 0xBF, [])
      else if b < 0xF5 then
        Some (Continue 3 (unat b - 0xF0)
                (if b = 0xF0 then 0x90 else 0x80) (if b = 0xF4 then 0x8F else 0xBF), [])
      else None)"

fun utf8_step :: "utf8_state \<Rightarrow> byte \<Rightarrow> (utf8_state \<times> nat list) option" where
  "utf8_step Start b = lead_byte b"
| "utf8_step (Continue n cp lo hi) b =
     (if lo \<le> b \<and> b \<le> hi then
        (let cp' = cp * 64 + (unat b - 0x80)
         in if n = 1 then Some (Start, [cp']) else Some (Continue (n - 1) cp' 0x80 0xBF, []))
      else None)"
| "utf8_step After_ED b =
     (if 0x80 \<le> b \<and> b \<le> 0x9F then Some (Continue 1 (0xD * 64 + (unat b - 0x80)) 0x80 0xBF, [])
      else if 0xA0 \<le> b \<and> b \<le> 0xBF then Some (Truncated_surrogate, [])
      else None)"
| "utf8_step Truncated_surrogate b = None"

fun utf8_decode :: "utf8_state \<Rightarrow> byte list \<Rightarrow> (utf8_state \<times> nat list) option" where
  "utf8_decode st [] = Some (st, [])"
| "utf8_decode st (b # bs) =
     (case utf8_step st b of
        None \<Rightarrow> None
      | Some (st', out) \<Rightarrow>
          (case utf8_decode st' bs of
             None \<Rightarrow> None
           | Some (st'', out') \<Rightarrow> Some (st'', out @ out')))"

definition utf8_decode_chunk :: "utf8_state \<Rightarrow> byte list \<Rightarrow> bool \<Rightarrow> (utf8_state \<times> nat list) option" where
  \<comment> \<open>\<open>decoder.decode(chunk, final)\<close>\<close>
  "utf8_decode_chunk st chunk final =
     (case utf8_decode st chunk of
        None \<Rightarrow> None
      | Some (st', out) \<Rightarrow> if final \<and> st' \<noteq> Start then None else Some (st', out))"

fun replace_crlf :: "nat list \<Rightarrow> nat list" where
  "replace_crlf (c # d # cs) =
     (if c = 13 \<and> d = 10 then 10 # replace_crlf cs else c # replace_crlf (d # cs))"
| "replace_crlf cs = cs"

definition replace_cr :: "nat list \<Rightarrow> nat list" where
  "replace_cr cs = map (\<lambda>c. if c = 13 then 10 else c) cs"

definition newline_decode :: "bool \<Rightarrow> nat list \<Rightarrow> bool \<Rightarrow> nat list \<times> bool" where
  \<comment> \<open>\<open>IncrementalNewlineDecoder.decode\<close> with \<open>translate\<close> set: the flag is \<open>pendingcr\<close>\<close>
  "newline_decode pendingcr decoded final =
     (let (out1, p1) = (if pendingcr \<and> (decoded \<noteq> [] \<or> final)
                        then (13 # decoded, False) else (decoded, pendingcr));
          (out2, p2) = (if out1 \<noteq> [] \<and> last out1 = 13 \<and> \<not> final
                        then (butlast out1, True) else (out1, p1))
      in (replace_cr (replace_crlf out2), p2))"

definition chunk_size :: nat where
  "chunk_size = 8192"

function readline_loop :: "utf8_state \<Rightarrow> bool \<Rightarrow> nat list \<Rightarrow> byte list \<Rightarrow> nat list option" where
  "readline_loop st pendingcr line rest =
     (if rest = [] then
        (case utf8_decode_chunk st [] True of
           None \<Rightarrow> None
         | Some (st', decoded) \<Rightarrow>
             (let line' = line @ fst (newline_decode pendingcr decoded True)
              in if 10 \<in> set line' then Some (takeWhile (\<lambda>c. c \<noteq> 10) line' @ [10])
                 else Some line'))
      else
        (case utf8_decode_chunk st (take chunk_size rest) False of
           None \<Rightarrow> None
         | Some (st', decoded) \<Rightarrow>
             (let line' = line @ fst (newline_decode pendingcr decoded False)
              in if 10 \<in> set line' then Some (takeWhile (\<lambda>c. c \<noteq> 10) line' @ [10])
                 else readline_loop st' (snd (newline_decode pendingcr decoded False)) line'
                        (drop chunk_size rest))))"
  by pat_completeness auto
termination
  by (relation "measure (\<lambda>(st, p, line, rest). length rest)") (auto simp: chunk_size_def)

declare readline_loop.simps [simp del]

definition readline :: "byte list \<Rightarrow> nat list option" where
  "readline bs = readline_loop Start False [] bs"

section \<open>YAML values\<close>

text \<open>
  What \<open>yaml.safe_load\<close> returns, as far as the program looks at it: a mapping (a Python
  \<open>dict\<close>, which keeps the order in which the keys were declared), a sequence or a scalar.
  The keys of a mapping are scalars (the loader refuses an unhashable key). Floats,
  dates and binary values are left out. The parser itself is a library:
  \<open>safe_load\<close> is a parameter that gives, for the path and the bytes of a file, the value
  or the text of the exception raised (a decoding error included; the text of a parse
  error names the file). The module is optional in the
  source (\<open>yaml = None\<close> when the import fails), so the parameter is an option.
\<close>

datatype scalar = SNull | SBool bool | SInt int | SStr string

datatype yaml_value = Scalar scalar | Seq "yaml_value list" | Mapping "(scalar \<times> yaml_value) list"

type_synonym safe_load = "string \<Rightarrow> byte list \<Rightarrow> string + yaml_value"

definition str_int :: "int \<Rightarrow> string" where
  "str_int i = (if i < 0 then ''-'' @ str_nat (nat (- i)) else str_nat (nat i))"

fun str_scalar :: "scalar \<Rightarrow> string" where
  \<comment> \<open>\<open>str(key)\<close>, as an f-string formats it\<close>
  "str_scalar SNull = ''None''"
| "str_scalar (SBool b) = (if b then ''True'' else ''False'')"
| "str_scalar (SInt i) = str_int i"
| "str_scalar (SStr s) = s"

fun dict_set :: "('k \<times> 'v) list \<Rightarrow> 'k \<Rightarrow> 'v \<Rightarrow> ('k \<times> 'v) list" where
  \<comment> \<open>\<open>d[k] = v\<close>: a key already there keeps its place, a new key goes last\<close>
  "dict_set [] k v = [(k, v)]"
| "dict_set ((k', v') # d) k v = (if k' = k then (k', v) # d else (k', v') # dict_set d k v)"

definition dict_update :: "('k \<times> 'v) list \<Rightarrow> ('k \<times> 'v) list \<Rightarrow> ('k \<times> 'v) list" where
  \<comment> \<open>\<open>d.update(e)\<close>\<close>
  "dict_update d e = foldl (\<lambda>d (k, v). dict_set d k v) d e"

section \<open>check_project_structure\<close>

definition quoted :: "string \<Rightarrow> string" where
  "quoted s = [CHR 0x27] @ s @ [CHR 0x27]"

record role_files =
  source :: "string list"
  raw :: "string list"
  tidy :: "string list"
  sidecar :: "string list"

type_synonym investigations = "(string \<times> role_files) list"

definition empty_files :: role_files where
  "empty_files = \<lparr>source = [], raw = [], tidy = [], sidecar = []\<rparr>"

fun append_role :: "role \<Rightarrow> string \<Rightarrow> role_files \<Rightarrow> role_files" where
  "append_role Source f b = b\<lparr>source := source b @ [f]\<rparr>"
| "append_role Raw f b = b\<lparr>raw := raw b @ [f]\<rparr>"
| "append_role Tidy f b = b\<lparr>tidy := tidy b @ [f]\<rparr>"
| "append_role Sidecar f b = b\<lparr>sidecar := sidecar b @ [f]\<rparr>"

definition setdefault :: "'k \<Rightarrow> 'v \<Rightarrow> ('k \<times> 'v) list \<Rightarrow> ('k \<times> 'v) list" where
  "setdefault k v d = (if k \<in> fst ` set d then d else d @ [(k, v)])"

definition add_file :: "string \<Rightarrow> role \<Rightarrow> string \<Rightarrow> investigations \<Rightarrow> investigations" where
  \<comment> \<open>\<open>investigations.setdefault(inv_name, {...})\<close>, then \<open>investigations[inv_name][ftype].append(file)\<close>\<close>
  "add_file inv_name ftype f invs =
     map (\<lambda>(k, b). if k = inv_name then (k, append_role ftype f b) else (k, b))
       (setdefault inv_name empty_files invs)"

definition listdir :: "listing \<Rightarrow> string list" where
  "listdir d = map fst d"

definition subfolder_error :: "string \<Rightarrow> string" where
  "subfolder_error item =
     ''data/ folder must only contain set-related files, but found subfolder: '' @ item"

definition unmatched_error :: "string \<Rightarrow> string" where
  "unmatched_error f = ''File '' @ quoted f @ '' does not match any known naming pattern.''"

definition not_found_error :: "string \<Rightarrow> string" where
  "not_found_error t = ''Investigation '' @ quoted t @ '' not found in data folder.''"

definition count_error :: "string \<Rightarrow> string \<Rightarrow> nat \<Rightarrow> string" where
  "count_error inv_name what n =
     ''Investigation '' @ quoted inv_name @ '' must have '' @ what @ ''; found '' @ str_nat n @ ''.''"

definition not_tab_separated_error :: "string \<Rightarrow> string" where
  "not_tab_separated_error tidy_file =
     ''Tidy data file '' @ quoted tidy_file @ '' does not appear to be tab-separated.''"

definition not_utf8_error :: "string \<Rightarrow> string" where
  "not_utf8_error tidy_file = ''Tidy data file '' @ quoted tidy_file @ '' is not encoded in UTF-8.''"

definition read_error :: "string \<Rightarrow> string \<Rightarrow> string" where
  "read_error tidy_file msg = ''Error reading tidy data file '' @ quoted tidy_file @ '': '' @ msg"

definition subfolder_step :: "listing \<Rightarrow> string list \<Rightarrow> string \<Rightarrow> string list" where
  "subfolder_step d errors item =
     (if isdir (map_of d item) then errors @ [subfolder_error item] else errors)"

definition classify_step ::
  "listing \<Rightarrow> investigations \<times> string list \<Rightarrow> string \<Rightarrow> investigations \<times> string list" where
  "classify_step d = (\<lambda>(invs, errors) f.
     if f \<in> {''.gitignore'', ''.DS_Store''} then (invs, errors)
     else if \<not> isfile (map_of d f) then (invs, errors)
     else (case classify_file f of
             Some (ftype, inv_name) \<Rightarrow> (add_file inv_name ftype f invs, errors)
           | None \<Rightarrow> (invs, errors @ [unmatched_error f])))"

definition requested :: "string option \<Rightarrow> string option" where
  \<comment> \<open>\<open>if target_inv:\<close> holds for a string that is not empty\<close>
  "requested target_inv = (case target_inv of None \<Rightarrow> None | Some t \<Rightarrow> if t = [] then None else Some t)"

definition filter_target ::
  "string option \<Rightarrow> investigations \<times> string list \<Rightarrow> investigations \<times> string list" where
  "filter_target target_inv = (\<lambda>(invs, errors).
     case requested target_inv of
       None \<Rightarrow> (invs, errors)
     | Some t \<Rightarrow>
         (case map_of invs t of
            None \<Rightarrow> ([], errors @ [not_found_error t])
          | Some files_dict \<Rightarrow> ([(t, files_dict)], errors)))"

definition structure_step :: "string list \<Rightarrow> string \<times> role_files \<Rightarrow> string list" where
  "structure_step errors = (\<lambda>(inv_name, files_dict).
     let errors1 = (if \<not> fullmatch_word_plus inv_name
                    then errors @ [''Investigation name '' @ quoted inv_name @
                           '' contains invalid characters. Only alphanumeric and '' @ quoted ''_'' @
                           '' are allowed.'']
                    else errors);
         errors2 = (if length (raw files_dict) \<noteq> 1
                    then errors1 @ [count_error inv_name ''exactly one raw file'' (length (raw files_dict))]
                    else errors1);
         errors3 = (if length (tidy files_dict) \<noteq> 1
                    then errors2 @ [count_error inv_name ''exactly one tidy data file'' (length (tidy files_dict))]
                    else errors2);
         errors4 = (if length (sidecar files_dict) \<noteq> 1
                    then errors3 @ [count_error inv_name ''exactly one sidecar file'' (length (sidecar files_dict))]
                    else errors3)
     in if length (source files_dict) > 1
        then errors4 @ [count_error inv_name ''at most one source file'' (length (source files_dict))]
        else errors4)"

definition check_tidy :: "string \<Rightarrow> listing \<Rightarrow> string \<Rightarrow> string list \<Rightarrow> string list" where
  \<comment> \<open>the \<open>try\<close> block on the first tidy file\<close>
  "check_tidy data_path d tidy_file errors =
     (case open_file (path_join data_path tidy_file) (map_of d tidy_file) of
        Inl msg \<Rightarrow> errors @ [read_error tidy_file msg]
      | Inr bs \<Rightarrow>
          (case readline bs of
             None \<Rightarrow> errors @ [not_utf8_error tidy_file]
           | Some header_line \<Rightarrow>
               if 9 \<notin> set header_line then errors @ [not_tab_separated_error tidy_file]
               else errors))"

definition check_sidecar ::
  "safe_load option \<Rightarrow> string \<Rightarrow> listing \<Rightarrow> string \<Rightarrow> string list \<Rightarrow> string list" where
  "check_sidecar yaml data_path d sidecar_file errors =
     (case yaml of
        None \<Rightarrow> errors @ [''PyYAML is not installed. Cannot check sidecar YAML files.'']
      | Some load \<Rightarrow>
          (case open_file (path_join data_path sidecar_file) (map_of d sidecar_file) of
             Inl msg \<Rightarrow> errors @ [''Sidecar file '' @ quoted sidecar_file @ '' is not valid YAML: '' @ msg]
           | Inr bs \<Rightarrow>
               (case load (path_join data_path sidecar_file) bs of
                  Inl msg \<Rightarrow> errors @ [''Sidecar file '' @ quoted sidecar_file @ '' is not valid YAML: '' @ msg]
                | Inr v \<Rightarrow> errors)))"

definition content_step ::
  "safe_load option \<Rightarrow> string \<Rightarrow> listing \<Rightarrow> string list \<Rightarrow> string \<times> role_files \<Rightarrow> string list" where
  "content_step yaml data_path d errors = (\<lambda>(inv_name, files_dict).
     let errors1 = (case tidy files_dict of
                      [] \<Rightarrow> errors
                    | tidy_file # others \<Rightarrow> check_tidy data_path d tidy_file errors)
     in case sidecar files_dict of
          [] \<Rightarrow> errors1
        | sidecar_file # others \<Rightarrow> check_sidecar yaml data_path d sidecar_file errors1)"

definition discovered :: "listing \<Rightarrow> string list \<Rightarrow> investigations \<times> string list" where
  \<comment> \<open>the grouping loop over \<open>os.listdir(data_path)\<close>, started with the errors so far\<close>
  "discovered d errors = foldl (classify_step d) ([], errors) (listdir d)"

definition root_checks :: "project \<Rightarrow> listing \<Rightarrow> investigations \<times> string list" where
  \<comment> \<open>what the function has done when it reaches \<open>if target_inv:\<close>: the README check, the
      subfolder loop and the grouping loop\<close>
  "root_checks p d =
     discovered d
       (foldl (subfolder_step d)
          (if readme p then [] else [''Project root must contain a README.md file.''])
          (listdir d))"

definition check_project_structure ::
  "safe_load option \<Rightarrow> project \<Rightarrow> string option \<Rightarrow> string list" where
  "check_project_structure yaml p target_inv =
     (case data p of
        None \<Rightarrow>
          (if readme p then [] else [''Project root must contain a README.md file.'']) @
          [''Project must contain a data/ folder.'']
      | Some d \<Rightarrow>
          (let (investigations, errors2) = filter_target target_inv (root_checks p d);
               errors3 = foldl structure_step errors2 investigations
           in foldl (content_step yaml (path_join (cwd p) ''data'') d) errors3 investigations))"

section \<open>load_yaml_fields\<close>

text \<open>
  The result pairs what was printed on the standard error with either the message of
  \<open>sys.exit\<close> or the list of fields. A field is a \<open>dict\<close>: an association list in
  insertion order.
\<close>

type_synonym field = "(scalar \<times> yaml_value) list"

definition skipped_warning :: "scalar \<Rightarrow> string" where
  "skipped_warning field_name =
     ''Warning: Field '' @ quoted (str_scalar field_name) @ '' is not a mapping; skipping.''"

definition field_step :: "field list \<times> string list \<Rightarrow> scalar \<times> yaml_value \<Rightarrow> field list \<times> string list" where
  "field_step = (\<lambda>(fields, err) (field_name, field_def).
     case field_def of
       Mapping attrs \<Rightarrow> (fields @ [dict_update [(SStr ''name'', Scalar field_name)] attrs], err)
     | _ \<Rightarrow> (fields, err @ [skipped_warning field_name]))"

definition parse_sidecar :: "safe_load option \<Rightarrow> string \<Rightarrow> entry option \<Rightarrow> string + yaml_value" where
  \<comment> \<open>the \<open>try\<close> block: \<open>open\<close>, then \<open>yaml.safe_load(f)\<close>; \<open>Inl\<close> is \<open>str(e)\<close> of what was raised\<close>
  "parse_sidecar yaml yml_file e =
     (case open_file yml_file e of
        Inl msg \<Rightarrow> Inl msg
      | Inr bs \<Rightarrow>
          (case yaml of
             None \<Rightarrow> Inl (quoted ''NoneType'' @ '' object has no attribute '' @ quoted ''safe_load'')
           | Some load \<Rightarrow> load yml_file bs))"

definition load_yaml_fields ::
  "safe_load option \<Rightarrow> string \<Rightarrow> entry option \<Rightarrow> string list \<times> (string + field list)" where
  "load_yaml_fields yaml yml_file e =
     (case parse_sidecar yaml yml_file e of
        Inl msg \<Rightarrow> ([], Inl (''Error loading YAML file '' @ yml_file @ '': '' @ msg))
      | Inr yaml_data \<Rightarrow>
          (case yaml_data of
             Mapping items \<Rightarrow>
               (let (fields, err) = foldl field_step ([], []) items in (err, Inr fields))
           | _ \<Rightarrow> ([], Inl (''Error: Expected a YAML mapping at the root of '' @ yml_file))))"

section \<open>compute_file_info\<close>

text \<open>
  \<open>hashlib.md5\<close> is a library: an \<open>md5\<close> object stands for the bytes fed to it so far,
  and \<open>hexdigest\<close> is a parameter \<open>md5_hexdigest\<close> of those bytes. The loop
  \<open>for chunk in iter(lambda: f.read(8192), b"")\<close> feeds the file in chunks.
\<close>

function feed_chunks :: "byte list \<Rightarrow> byte list \<Rightarrow> byte list" where
  "feed_chunks fed rest =
     (let chunk = take 8192 rest
      in if chunk = [] then fed else feed_chunks (fed @ chunk) (drop 8192 rest))"
  by pat_completeness auto
termination
  by (relation "measure (\<lambda>(fed, rest). length rest)") auto

declare feed_chunks.simps [simp del]

definition compute_file_info ::
  "(byte list \<Rightarrow> string) \<Rightarrow> string \<Rightarrow> entry option \<Rightarrow> string + nat \<times> string" where
  "compute_file_info md5_hexdigest tsv_path e =
     (if e = None \<or> e = Some Other then
        Inl (''Error obtaining file size for '' @ tsv_path @ '': '' @
             ''[Errno 2] No such file or directory: '' @ quoted tsv_path)
      else
        (case open_file tsv_path e of
           Inl msg \<Rightarrow> Inl (''Error computing md5 for '' @ tsv_path @ '': '' @ msg)
         | Inr bs \<Rightarrow> Inr (length bs, md5_hexdigest (feed_chunks [] bs))))"

section \<open>package_investigations\<close>

record dialect =
  header :: bool
  headerRows :: "nat list"
  headerJoin :: string
  commentChar :: string
  delimiter :: string
  lineTerminator :: string
  quoteChar :: string
  doubleQuote :: bool
  skipInitialSpace :: bool

record license =
  license_name :: string
  license_title :: string
  license_path :: string

record resource =
  profile :: string
  name :: string
  path :: string
  format :: string
  mediatype :: string
  encoding :: string
  bytes :: nat
  hash :: string
  schema_fields :: "field list"
  resource_dialect :: dialect
  licenses :: "license list"
  created :: string

record datapackage =
  package_name :: string
  resources :: "resource list"

record datetime =
  year :: nat
  month :: nat
  day :: nat
  hour :: nat
  minute :: nat
  second :: nat

definition two_digits :: "nat \<Rightarrow> string" where
  \<comment> \<open>\<open>%m\<close>, \<open>%d\<close>, \<open>%H\<close>, \<open>%M\<close>, \<open>%S\<close>: padded with a zero to two digits\<close>
  "two_digits n = (if n < 10 then ''0'' @ str_nat n else str_nat n)"

definition strftime :: "datetime \<Rightarrow> string" where
  \<comment> \<open>\<open>strftime("%Y-%m-%dT%H:%M:%SZ")\<close>\<close>
  "strftime t =
     str_nat (year t) @ ''-'' @ two_digits (month t) @ ''-'' @ two_digits (day t) @ ''T'' @
     two_digits (hour t) @ '':'' @ two_digits (minute t) @ '':'' @ two_digits (second t) @ ''Z''"

text \<open>
  The rest of the environment of a run: the \<open>yaml\<close> module, the digest, the clock
  (\<open>clock n\<close> is what the \<open>n\<close>-th call of \<open>datetime.datetime.utcnow()\<close> of the run
  returns) and what writing \<open>datapackage.json\<close> raises, if anything. A run returns what
  it printed on the standard error, with the message of \<open>sys.exit\<close> or the descriptor
  that \<open>json.dump\<close> writes; the line it prints on the standard output is left out. A
  sidecar is opened by its path \<open>data_path/name\<close>, which is the entry \<open>name\<close> of \<open>data/\<close>.
\<close>

record runtime =
  yaml_module :: "safe_load option"
  md5_hexdigest :: "byte list \<Rightarrow> string"
  clock :: "nat \<Rightarrow> datetime"
  write_error :: "string option"

definition utcnow :: "(nat \<Rightarrow> datetime) \<Rightarrow> datetime \<times> (nat \<Rightarrow> datetime)" where
  "utcnow clk = (clk 0, \<lambda>n. clk (Suc n))"

definition splitext :: "string \<Rightarrow> string \<times> string" where
  \<comment> \<open>\<open>os.path.splitext\<close> on a name without a slash: the extension starts at the last dot,
      unless only dots come before it\<close>
  "splitext p =
     (if CHR ''.'' \<in> set p then
        (let ext = CHR ''.'' # rev (takeWhile (\<lambda>c. c \<noteq> CHR ''.'') (rev p));
             root = take (length p - length ext) p
         in if list_ex (\<lambda>c. c \<noteq> CHR ''.'') root then (root, ext) else (p, []))
      else (p, []))"

definition basename :: "string \<Rightarrow> string" where
  "basename p = rev (takeWhile (\<lambda>c. c \<noteq> CHR ''/'') (rev p))"

definition sidecar_step :: "string \<Rightarrow> (string \<times> string) list \<Rightarrow> string \<Rightarrow> (string \<times> string) list" where
  "sidecar_step data_path invs f =
     (if endswith f ''.yml'' then dict_set invs (fst (splitext f)) (path_join data_path f)
      else invs)"

definition fixed_dialect :: dialect where
  "fixed_dialect =
     \<lparr>header = True, headerRows = [1], headerJoin = '' '', commentChar = ''#'',
      delimiter = [CHR 0x09], lineTerminator = [CHR 0x0D, CHR 0x0A], quoteChar = [CHR 0x22],
      doubleQuote = True, skipInitialSpace = False\<rparr>"

definition cc0 :: license where
  "cc0 =
     \<lparr>license_name = ''CC0'', license_title = ''Creative Commons CC0'',
      license_path = ''https://creativecommons.org/publicdomain/zero/1.0/''\<rparr>"

definition make_resource :: "string \<Rightarrow> nat \<Rightarrow> string \<Rightarrow> field list \<Rightarrow> string \<Rightarrow> resource" where
  "make_resource inv_name bytes_size hash_hex field_list created_at =
     \<lparr>profile = ''tabular-data-resource'', name = inv_name,
      path = ''data/'' @ inv_name @ ''.tsv'', format = ''tsv'',
      mediatype = ''text/tab-separated-values'', encoding = ''utf-8'',
      bytes = bytes_size, hash = hash_hex, schema_fields = field_list,
      resource_dialect = fixed_dialect, licenses = [cc0], created = created_at\<rparr>"

definition missing_tsv_warning :: "string \<Rightarrow> string" where
  "missing_tsv_warning tsv_path =
     ''Warning: TSV file '' @ quoted tsv_path @ '' not found. Using placeholder values.''"

definition file_info ::
  "runtime \<Rightarrow> listing \<Rightarrow> string \<Rightarrow> string \<Rightarrow> string list \<times> (string + nat \<times> string)" where
  \<comment> \<open>the \<open>if os.path.isfile(tsv_path)\<close> of the loop body, with what it prints\<close>
  "file_info rt d data_path inv_name =
     (let tsv_path = path_join data_path (inv_name @ ''.tsv'')
      in if isfile (map_of d (inv_name @ ''.tsv''))
         then ([], compute_file_info (md5_hexdigest rt) tsv_path (map_of d (inv_name @ ''.tsv'')))
         else ([missing_tsv_warning tsv_path], Inr (0, [])))"

definition package_one ::
  "runtime \<Rightarrow> listing \<Rightarrow> string \<Rightarrow> string \<Rightarrow> string \<times> string \<Rightarrow>
   string list \<times> (string + resource)" where
  \<comment> \<open>the body of \<open>for inv, yml_file in investigations.items()\<close>: what it prints, and the
      message of \<open>sys.exit\<close> or the resource it appends\<close>
  "package_one rt d data_path created_at = (\<lambda>(inv_name, yml_file).
     case file_info rt d data_path inv_name of
       (warn, Inl msg) \<Rightarrow> (warn, Inl msg)
     | (warn, Inr (bytes_size, hash_hex)) \<Rightarrow>
         (case load_yaml_fields (yaml_module rt) yml_file (map_of d (basename yml_file)) of
            (warn', Inl msg) \<Rightarrow> (warn @ warn', Inl msg)
          | (warn', Inr field_list) \<Rightarrow>
              (warn @ warn', Inr (make_resource inv_name bytes_size hash_hex field_list created_at))))"

fun package_loop ::
  "runtime \<Rightarrow> listing \<Rightarrow> string \<Rightarrow> string \<Rightarrow> (string \<times> string) list \<Rightarrow>
   string list \<Rightarrow> resource list \<Rightarrow> string list \<times> (string + resource list)" where
  "package_loop rt d data_path created_at [] err rs = (err, Inr rs)"
| "package_loop rt d data_path created_at (item # rest) err rs =
     (case package_one rt d data_path created_at item of
        (warn, Inl msg) \<Rightarrow> (err @ warn, Inl msg)
      | (warn, Inr r) \<Rightarrow> package_loop rt d data_path created_at rest (err @ warn) (rs @ [r]))"

definition sidecars :: "string \<Rightarrow> listing \<Rightarrow> (string \<times> string) list" where
  \<comment> \<open>the \<open>investigations\<close> dict after the loop over \<open>os.listdir(data_path)\<close>\<close>
  "sidecars data_path d = foldl (sidecar_step data_path) [] (listdir d)"

definition select_target ::
  "string option \<Rightarrow> (string \<times> string) list \<Rightarrow> string + (string \<times> string) list" where
  "select_target target_inv investigations =
     (case requested target_inv of
        None \<Rightarrow> Inr investigations
      | Some t \<Rightarrow>
          (case map_of investigations t of
             None \<Rightarrow> Inl (''Error: Investigation '' @ quoted t @
                          '' not found (no corresponding .yml file in data/).'')
           | Some yml_file \<Rightarrow> Inr [(t, yml_file)]))"

definition package_investigations ::
  "runtime \<Rightarrow> project \<Rightarrow> string option \<Rightarrow> string list \<times> (string + datapackage)" where
  "package_investigations rt p target_inv =
     (let data_path = path_join (cwd p) ''data''
      in case data p of
           None \<Rightarrow> ([], Inl ''Error: data/ folder not found in the current project directory.'')
         | Some d \<Rightarrow>
             (case select_target target_inv (sidecars data_path d) of
                Inl msg \<Rightarrow> ([], Inl msg)
              | Inr investigations \<Rightarrow>
                  (let (now, clk) = utcnow (clock rt);
                       created_at = strftime now
                   in case package_loop rt d data_path created_at investigations [] [] of
                        (err, Inl msg) \<Rightarrow> (err, Inl msg)
                      | (err, Inr rs) \<Rightarrow>
                          (let name0 = basename (cwd p);
                               pkg = \<lparr>package_name = (if name0 = [] then ''defaultdata-package'' else name0),
                                      resources = rs\<rparr>
                           in case write_error rt of
                                Some msg \<Rightarrow> (err, Inl (''Error writing datapackage.json: '' @ msg))
                              | None \<Rightarrow> (err, Inr pkg)))))"

section \<open>The file names of the specification\<close>

text \<open>
  The specification describes the four roles by the shape of the name: \<open>X-source.E\<close>,
  \<open>X-raw.E\<close>, \<open>X.tsv\<close> and \<open>X.yml\<close>, with \<open>X\<close> a non-empty string over
  \<open>[A-Za-z0-9_]\<close> and \<open>E\<close> non-empty. These two definitions follow its words, to be
  compared with the patterns of the code.
\<close>

definition spec_name :: "string \<Rightarrow> bool" where
  "spec_name X \<longleftrightarrow> X \<noteq> [] \<and> list_all word_char X"

fun spec_form :: "role \<Rightarrow> string \<Rightarrow> string \<Rightarrow> bool" where
  "spec_form Source X f \<longleftrightarrow> (\<exists>E. E \<noteq> [] \<and> f = X @ ''-source.'' @ E)"
| "spec_form Raw X f \<longleftrightarrow> (\<exists>E. E \<noteq> [] \<and> f = X @ ''-raw.'' @ E)"
| "spec_form Tidy X f \<longleftrightarrow> f = X @ ''.tsv''"
| "spec_form Sidecar X f \<longleftrightarrow> f = X @ ''.yml''"

section \<open>An example project\<close>

definition example_data :: listing where
  "example_data =
     [(''trial.tsv'', Regular (Content [0x69, 0x64, 0x09, 0x78, 0x0A, 0x31, 0x09, 0x32, 0x0A])),
      (''trial.yml'', Regular (Content [0x69, 0x64, 0x3A, 0x20, 0x7B, 0x7D, 0x0A])),
      (''trial-raw.csv'', Regular (Content [0x69, 0x64, 0x2C, 0x78, 0x0A])),
      (''.gitignore'', Regular (Content [])),
      (''notes.txt'', Regular (Content [])),
      (''old'', Directory)]"

definition example_project :: project where
  "example_project = \<lparr>cwd = ''/work/study'', readme = False, data = Some example_data\<rparr>"

section \<open>Files of an investigation\<close>


section \<open>Shapes of YAML values\<close>

text \<open>
  \<open>is_mapping\<close> is \<open>isinstance(v, dict)\<close>. \<open>is_dict\<close> says in addition that no key
  occurs twice, as in every Python \<open>dict\<close>. \<open>example_sidecar\<close> is the sidecar of the
  specification's example.
\<close>

fun is_dict :: "yaml_value \<Rightarrow> bool" where
  "is_dict (Mapping attrs) = distinct (map fst attrs)"
| "is_dict v = False"

fun is_mapping :: "yaml_value \<Rightarrow> bool" where
  "is_mapping (Mapping attrs) = True"
| "is_mapping v = False"

definition example_sidecar :: yaml_value where
  "example_sidecar =
     Mapping [(SStr ''col_a'', Mapping [(SStr ''type'', Scalar (SStr ''string''))]),
              (SStr ''col_b'', Mapping [(SStr ''type'', Scalar (SStr ''integer''))])]"

section \<open>The shape of a timestamp\<close>

text \<open>
  \<open>utc_range\<close> holds of the dates that \<open>datetime.datetime.utcnow()\<close> returns on a running
  system: a year of four digits and fields within their ranges.
\<close>

definition utc_range :: "datetime \<Rightarrow> bool" where
  "utc_range t \<longleftrightarrow>
     1000 \<le> year t \<and> year t \<le> 9999 \<and> 1 \<le> month t \<and> month t \<le> 12 \<and>
     1 \<le> day t \<and> day t \<le> 31 \<and> hour t < 24 \<and> minute t < 60 \<and> second t < 60"

definition is_digit :: "char \<Rightarrow> bool" where
  "is_digit c \<longleftrightarrow> c \<in> set ''0123456789''"

definition timestamp_format :: "string \<Rightarrow> bool" where
  \<comment> \<open>\<open>YYYY-MM-DDTHH:MM:SSZ\<close>: with every digit replaced by 9 the string is the template\<close>
  "timestamp_format s \<longleftrightarrow>
     map (\<lambda>c. if is_digit c then CHR ''9'' else c) s = ''9999-99-99T99:99:99Z''"

section \<open>An example run of the packaging\<close>

text \<open>
  A project with a tidy file and its sidecar, and a second sidecar \<open>my-data.yml\<close> with no
  tidy file; a runtime whose parser returns the example sidecar, with a stand-in for the
  digest and a clock that advances by a second at every reading.
\<close>

definition example_package_data :: listing where
  "example_package_data =
     [(''trial.tsv'', Regular (Content [0x69, 0x64, 0x09, 0x78, 0x0A, 0x31, 0x09, 0x32, 0x0A])),
      (''trial.yml'', Regular (Content [0x69, 0x64, 0x3A, 0x20, 0x7B, 0x7D, 0x0A])),
      (''my-data.yml'', Regular (Content [0x69, 0x64, 0x3A, 0x20, 0x7B, 0x7D, 0x0A]))]"

definition example_package_project :: project where
  "example_package_project = \<lparr>cwd = ''/work/study'', readme = True, data = Some example_package_data\<rparr>"

definition example_runtime :: runtime where
  "example_runtime =
     \<lparr>yaml_module = Some (\<lambda>path bs. Inr example_sidecar),
      md5_hexdigest = (\<lambda>bs. ''digest-of-'' @ str_nat (length bs) @ ''-bytes''),
      clock = (\<lambda>n. \<lparr>year = 2026, month = 11, day = 4, hour = 9, minute = 30, second = n\<rparr>),
      write_error = None\<rparr>"

definition example_fields :: "field list" where
  "example_fields =
     [[(SStr ''name'', Scalar (SStr ''col_a'')), (SStr ''type'', Scalar (SStr ''string''))],
      [(SStr ''name'', Scalar (SStr ''col_b'')), (SStr ''type'', Scalar (SStr ''integer''))]]"

definition example_descriptor :: datapackage where
  "example_descriptor =
     \<lparr>package_name = ''study'',
      resources =
        [make_resource ''trial'' 9 ''digest-of-9-bytes'' example_fields ''2026-11-04T09:30:00Z'',
         make_resource ''my-data'' 0 [] example_fields ''2026-11-04T09:30:00Z'']\<rparr>"

definition example_later_runtime :: runtime where
  "example_later_runtime =
     example_runtime\<lparr>clock := (\<lambda>n. \<lparr>year = 2026, month = 11, day = 5, hour = 17, minute = 8, second = 59\<rparr>)\<rparr>"

section \<open>The line within the first chunk\<close>

text \<open>
  \<open>first_chunk_line bs\<close> is the first line of the file when the first chunk of 8192
  bytes decodes and holds a line end; it looks at that chunk only.
\<close>

definition first_chunk_line :: "byte list \<Rightarrow> nat list option" where
  "first_chunk_line bs =
     (case utf8_decode_chunk Start (take chunk_size bs) False of
        None \<Rightarrow> None
      | Some (st, decoded) \<Rightarrow>
          (let out = fst (newline_decode False decoded False)
           in if 10 \<in> set out then Some (takeWhile (\<lambda>c. c \<noteq> 10) out @ [10]) else None))"

section \<open>An example project for the content checks\<close>

definition example_tidy_project :: "byte list \<Rightarrow> project" where
  "example_tidy_project bs =
     \<lparr>cwd = ''/work/study'', readme = True,
      data = Some [(''trial.tsv'', Regular (Content bs)),
                   (''trial.yml'', Regular (Content [0x69, 0x64, 0x3A, 0x20, 0x7B, 0x7D, 0x0A])),
                   (''trial-raw.csv'', Regular (Content [0x69, 0x64, 0x2C, 0x78, 0x0A]))]\<rparr>"

definition example_loader :: safe_load where
  "example_loader yml_file bs = Inr (Mapping [])"

section \<open>What the grouping maintains\<close>

text \<open>
  The investigations have distinct names, and every file in a tidy list was matched by
  the tidy pattern with the name of its investigation.
\<close>

definition grouped_ok :: "investigations \<Rightarrow> bool" where
  "grouped_ok invs \<longleftrightarrow>
     distinct (map fst invs) \<and>
     (\<forall>(k, b)\<in>set invs. \<forall>f\<in>set (tidy b). classify_file f = Some (Tidy, k))"

section \<open>Properties of the classification\<close>

lemma greedy_plus_empty: "takeWhile p s = [] \<Longrightarrow> greedy_plus p s = []"
  by (simp add: greedy_plus_def)

lemma greedy_plus_longest:
  "takeWhile p s \<noteq> [] \<Longrightarrow>
   greedy_plus p s =
     (takeWhile p s, dropWhile p s) #
     map (\<lambda>n. (take n s, drop n s)) (rev [1..<length (takeWhile p s)])"
proof -
  assume "takeWhile p s \<noteq> []"
  then have "1 \<le> length (takeWhile p s)" by (cases "takeWhile p s") auto
  then have "[1..<Suc (length (takeWhile p s))] = [1..<length (takeWhile p s)] @ [length (takeWhile p s)]"
    by simp
  then show ?thesis
    by (simp add: greedy_plus_def takeWhile_eq_take [symmetric] dropWhile_eq_drop [symmetric])
qed

lemma shorter_starts_inside:
  assumes "n < length (takeWhile p s)"
  shows "drop n s \<noteq> [] \<and> p (hd (drop n s))"
proof -
  have n: "n < length s" using assms length_takeWhile_le [of p s] by (meson less_le_trans)
  have "takeWhile p s ! n = s ! n" using assms by (rule takeWhile_nth)
  moreover have "p (takeWhile p s ! n)" using assms nth_mem set_takeWhileD by metis
  ultimately show ?thesis using n by (simp add: hd_drop_conv_nth)
qed

lemma literal_Some: "literal l s = Some r \<longleftrightarrow> s = l @ r"
  by (auto simp: literal_def) (metis append_take_drop_id)

lemma literal_inside:
  assumes "l \<noteq> []" "\<not> word_char (hd l)" "n < length (takeWhile word_char s)"
  shows "literal l (drop n s) = None"
proof (cases "literal l (drop n s)")
  case (Some r)
  then have "drop n s = l @ r" by (simp add: literal_Some)
  then have "hd (drop n s) = hd l" using assms(1) by simp
  then show ?thesis using shorter_starts_inside [OF assms(3)] assms(2) by simp
qed simp

lemma inv_pattern_longest:
  assumes "l \<noteq> []" "\<not> word_char (hd l)"
  shows "inv_pattern l tail s =
           (if takeWhile word_char s \<noteq> [] \<and>
               (case literal l (dropWhile word_char s) of None \<Rightarrow> False | Some r \<Rightarrow> tail r)
            then Some (takeWhile word_char s) else None)"
proof (cases "takeWhile word_char s = []")
  case True
  then show ?thesis by (simp add: inv_pattern_def greedy_plus_empty)
next
  case False
  have "find (\<lambda>(m, rest). case literal l rest of None \<Rightarrow> False | Some r \<Rightarrow> tail r)
          (map (\<lambda>n. (take n s, drop n s)) (rev [1..<length (takeWhile word_char s)])) = None"
    using literal_inside [OF assms] by (auto simp: find_None_iff)
  then show ?thesis using False
    by (simp add: inv_pattern_def greedy_plus_longest)
qed

lemma takeWhile_name:
  assumes "list_all word_char X" "l \<noteq> []" "\<not> word_char (hd l)"
  shows "takeWhile word_char (X @ l @ E) = X" "dropWhile word_char (X @ l @ E) = l @ E"
proof -
  have "takeWhile word_char (l @ E) = []" using assms(2,3) by (cases l) auto
  moreover have "\<forall>x\<in>set X. word_char x" using assms(1) by (simp add: list_all_iff)
  ultimately show "takeWhile word_char (X @ l @ E) = X" "dropWhile word_char (X @ l @ E) = l @ E"
    by (simp_all add: takeWhile_append2 dropWhile_append2 dropWhile_eq_self_iff takeWhile_eq_Nil_iff)
qed

lemma inv_pattern_Some:
  assumes "l \<noteq> []" "\<not> word_char (hd l)"
  shows "inv_pattern l tail f = Some X \<longleftrightarrow>
           spec_name X \<and> (\<exists>E. f = X @ l @ E \<and> tail E)"
proof
  assume "inv_pattern l tail f = Some X"
  then have X: "X = takeWhile word_char f" "X \<noteq> []"
    and "case literal l (dropWhile word_char f) of None \<Rightarrow> False | Some r \<Rightarrow> tail r"
    by (auto simp: inv_pattern_longest [OF assms] split: if_splits)
  then obtain r where r: "dropWhile word_char f = l @ r" "tail r"
    by (auto simp: literal_Some split: option.splits)
  have "f = X @ l @ r" using X(1) r(1) takeWhile_dropWhile_id [of word_char f] by simp
  moreover have "list_all word_char X" using X(1) by (auto simp: list_all_iff dest: set_takeWhileD)
  ultimately show "spec_name X \<and> (\<exists>E. f = X @ l @ E \<and> tail E)"
    using X(2) r(2) by (auto simp: spec_name_def)
next
  assume "spec_name X \<and> (\<exists>E. f = X @ l @ E \<and> tail E)"
  then obtain E where E: "X \<noteq> []" "list_all word_char X" "f = X @ l @ E" "tail E"
    by (auto simp: spec_name_def)
  have "literal l (l @ E) = Some E" by (simp add: literal_Some)
  then show "inv_pattern l tail f = Some X"
    using E takeWhile_name [OF E(2) assms, of E]
    by (simp add: inv_pattern_longest [OF assms])
qed

lemma any_plus_end_iff:
  "any_plus_end s \<longleftrightarrow>
     takeWhile (\<lambda>c. c \<noteq> newline) s \<noteq> [] \<and> at_end (dropWhile (\<lambda>c. c \<noteq> newline) s)"
proof (cases "takeWhile (\<lambda>c. c \<noteq> newline) s = []")
  case True
  then show ?thesis by (simp add: any_plus_end_def greedy_plus_empty)
next
  case False
  have "\<not> at_end (drop n s)" if "n < length (takeWhile (\<lambda>c. c \<noteq> newline) s)" for n
    using shorter_starts_inside [OF that] by (auto simp: at_end_def)
  then have "\<not> list_ex (\<lambda>(m, rest). at_end rest)
          (map (\<lambda>n. (take n s, drop n s)) (rev [1..<length (takeWhile (\<lambda>c. c \<noteq> newline) s)]))"
    by (auto simp: list_ex_iff)
  then show ?thesis using False
    by (simp add: any_plus_end_def greedy_plus_longest)
qed

lemma any_plus_end_no_newline: "newline \<notin> set s \<Longrightarrow> any_plus_end s \<longleftrightarrow> s \<noteq> []"
proof -
  assume "newline \<notin> set s"
  then have tw: "takeWhile (\<lambda>c. c \<noteq> newline) s = s" and dw: "dropWhile (\<lambda>c. c \<noteq> newline) s = []"
    by auto
  show ?thesis unfolding any_plus_end_iff tw dw by (simp add: at_end_def)
qed

lemma at_end_no_newline: "newline \<notin> set s \<Longrightarrow> at_end s \<longleftrightarrow> s = []"
  by (auto simp: at_end_def)

lemma not_word_dash: "\<not> word_char CHR ''-''" and not_word_dot: "\<not> word_char CHR ''.''"
  by (simp_all add: word_char_def)

lemma pattern_forms:
  assumes "newline \<notin> set f"
  shows "source_pattern f = Some X \<longleftrightarrow> spec_name X \<and> spec_form Source X f"
    and "raw_pattern f = Some X \<longleftrightarrow> spec_name X \<and> spec_form Raw X f"
    and "tidy_pattern f = Some X \<longleftrightarrow> spec_name X \<and> spec_form Tidy X f"
    and "sidecar_pattern f = Some X \<longleftrightarrow> spec_name X \<and> spec_form Sidecar X f"
  using assms
  by (auto simp: source_pattern_def raw_pattern_def tidy_pattern_def sidecar_pattern_def
        inv_pattern_Some not_word_dash not_word_dot any_plus_end_no_newline at_end_no_newline)

lemma pattern_rest:
  assumes "l \<noteq> []" "\<not> word_char (hd l)" "inv_pattern l tail f \<noteq> None"
  shows "\<exists>E. dropWhile word_char f = l @ E"
proof -
  from assms obtain X E where "list_all word_char X" "f = X @ l @ E"
    by (auto simp: inv_pattern_Some spec_name_def)
  then show ?thesis using takeWhile_name [OF _ assms(1,2), of X E] by auto
qed

lemma patterns_exclusive:
  "source_pattern f \<noteq> None \<Longrightarrow> raw_pattern f = None \<and> tidy_pattern f = None \<and> sidecar_pattern f = None"
  "raw_pattern f \<noteq> None \<Longrightarrow> tidy_pattern f = None \<and> sidecar_pattern f = None"
  "tidy_pattern f \<noteq> None \<Longrightarrow> sidecar_pattern f = None"
proof -
  have src: "\<exists>E. dropWhile word_char f = ''-source.'' @ E" if "source_pattern f \<noteq> None"
    using pattern_rest [of "''-source.''" any_plus_end f] that
    by (simp add: source_pattern_def not_word_dash)
  have rw: "\<exists>E. dropWhile word_char f = ''-raw.'' @ E" if "raw_pattern f \<noteq> None"
    using pattern_rest [of "''-raw.''" any_plus_end f] that
    by (simp add: raw_pattern_def not_word_dash)
  have td: "\<exists>E. dropWhile word_char f = ''.tsv'' @ E" if "tidy_pattern f \<noteq> None"
    using pattern_rest [of "''.tsv''" at_end f] that
    by (simp add: tidy_pattern_def not_word_dot)
  have sc: "\<exists>E. dropWhile word_char f = ''.yml'' @ E" if "sidecar_pattern f \<noteq> None"
    using pattern_rest [of "''.yml''" at_end f] that
    by (simp add: sidecar_pattern_def not_word_dot)
  show "source_pattern f \<noteq> None \<Longrightarrow> raw_pattern f = None \<and> tidy_pattern f = None \<and> sidecar_pattern f = None"
    using src rw td sc by fastforce
  show "raw_pattern f \<noteq> None \<Longrightarrow> tidy_pattern f = None \<and> sidecar_pattern f = None"
    using rw td sc by fastforce
  show "tidy_pattern f \<noteq> None \<Longrightarrow> sidecar_pattern f = None"
    using td sc by fastforce
qed

lemma classify_file_Some:
  "classify_file f = Some (r, X) \<longleftrightarrow>
     (case r of Source \<Rightarrow> source_pattern f | Raw \<Rightarrow> raw_pattern f
              | Tidy \<Rightarrow> tidy_pattern f | Sidecar \<Rightarrow> sidecar_pattern f) = Some X"
  using patterns_exclusive [of f]
  by (cases r) (auto simp: classify_file_def split: option.splits)

lemma classify_file_None:
  "classify_file f = None \<longleftrightarrow>
     source_pattern f = None \<and> raw_pattern f = None \<and> tidy_pattern f = None \<and> sidecar_pattern f = None"
  by (auto simp: classify_file_def split: option.splits)

text \<open>
  Claim C1, as amended. No file name matches two of the four patterns. For a file name
  without a newline character, the classification returns role \<open>r\<close> and name \<open>X\<close> exactly
  when the name has the shape of that role for \<open>X\<close>, with \<open>X\<close> a non-empty string over
  \<open>[A-Za-z0-9_]\<close>; it returns nothing exactly when the name has none of the four shapes,
  and then, for a regular file that is not one of the two ignored names, the grouping
  loop appends the naming-pattern error and leaves the investigations as they are.
\<close>

theorem classify_file_forms:
  "length (filter (\<lambda>pattern. pattern f \<noteq> None)
             [source_pattern, raw_pattern, tidy_pattern, sidecar_pattern]) \<le> 1 \<and>
   (newline \<notin> set f \<longrightarrow>
      (classify_file f = Some (r, X) \<longleftrightarrow> spec_name X \<and> spec_form r X f) \<and>
      (classify_file f = None \<longleftrightarrow> \<not> (\<exists>r X. spec_name X \<and> spec_form r X f)) \<and>
      (f \<notin> {''.gitignore'', ''.DS_Store''} \<and> isfile (map_of d f) \<and> classify_file f = None \<longrightarrow>
         classify_step d (invs, errors) f = (invs, errors @ [unmatched_error f])))"
proof (intro conjI impI)
  show "length (filter (\<lambda>pattern. pattern f \<noteq> None)
             [source_pattern, raw_pattern, tidy_pattern, sidecar_pattern]) \<le> 1"
    using patterns_exclusive [of f] by auto
next
  assume nl: "newline \<notin> set f"
  show form: "classify_file f = Some (r, X) \<longleftrightarrow> spec_name X \<and> spec_form r X f" for r X
    using pattern_forms [OF nl, of X] by (cases r) (simp_all add: classify_file_Some)
  have "classify_file f = None \<longleftrightarrow> \<not> (\<exists>r X. classify_file f = Some (r, X))"
    by (cases "classify_file f") auto
  then show "classify_file f = None \<longleftrightarrow> \<not> (\<exists>r X. spec_name X \<and> spec_form r X f)"
    using form by simp
next
  assume "f \<notin> {''.gitignore'', ''.DS_Store''} \<and> isfile (map_of d f) \<and> classify_file f = None"
  then show "classify_step d (invs, errors) f = (invs, errors @ [unmatched_error f])"
    by (simp add: classify_step_def)
qed

theorem classify_file_forms_witness:
  "newline \<notin> set ''ab_1-raw.csv'' \<and> classify_file ''ab_1-raw.csv'' = Some (Raw, ''ab_1'') \<and>
   newline \<notin> set ''notes.txt'' \<and> ''notes.txt'' \<notin> {''.gitignore'', ''.DS_Store''} \<and>
   isfile (map_of [(''notes.txt'', Regular (Content []))] ''notes.txt'') \<and>
   classify_file ''notes.txt'' = None \<and>
   classify_step [(''notes.txt'', Regular (Content []))] ([], []) ''notes.txt'' =
     ([], [unmatched_error ''notes.txt''])"
proof -
  have a: "newline \<notin> set ''ab_1-raw.csv''" and b: "newline \<notin> set ''notes.txt''"
    by (simp_all add: newline_def)
  have name: "spec_name ''ab_1''" by (simp add: spec_name_def word_char_def)
  have form: "spec_form Raw ''ab_1'' ''ab_1-raw.csv''" by simp
  have none: "classify_file ''notes.txt'' = None"
    by (simp add: classify_file_def source_pattern_def raw_pattern_def tidy_pattern_def
          sidecar_pattern_def inv_pattern_def greedy_plus_def literal_def word_char_def)
  show ?thesis
    using classify_file_forms [of "''ab_1-raw.csv''" Raw "''ab_1''"] a name form
      classify_file_forms [of "''notes.txt''" Raw "''ab_1''" "[(''notes.txt'', Regular (Content []))]" "[]" "[]"] b none
    by simp
qed

text \<open>
  Claim C1 as stated fails on names with a newline: \<open>a-source.\<close> followed by a newline
  has the shape \<open>X-source.E\<close> with a non-empty \<open>E\<close> but matches no pattern (the dot of
  the pattern does not match a newline), and \<open>a.tsv\<close> followed by a newline has none of
  the four shapes but is classified as the tidy file of \<open>a\<close> (\<open>$\<close> matches before a
  final newline).
\<close>

theorem classify_file_newline_counterexample:
  "spec_name ''a'' \<and> spec_form Source ''a'' (''a-source.'' @ [newline]) \<and>
   classify_file (''a-source.'' @ [newline]) = None \<and>
   classify_file (''a.tsv'' @ [newline]) = Some (Tidy, ''a'')"
  by (simp add: spec_name_def classify_file_def source_pattern_def raw_pattern_def tidy_pattern_def
        sidecar_pattern_def inv_pattern_def greedy_plus_def literal_def word_char_def
        any_plus_end_def at_end_def newline_def)

section \<open>Properties of the grouping\<close>

lemma fullmatch_word_plus_iff: "fullmatch_word_plus s \<longleftrightarrow> spec_name s"
proof (cases "takeWhile word_char s = []")
  case True
  then have "s = [] \<or> \<not> word_char (hd s)" by (cases s) (auto split: if_splits)
  then have "\<not> spec_name s" by (cases s) (auto simp: spec_name_def)
  then show ?thesis using True by (simp add: fullmatch_word_plus_def greedy_plus_empty)
next
  case False
  have "drop n s \<noteq> []" if "n < length (takeWhile word_char s)" for n
    using shorter_starts_inside [OF that] by simp
  then have "\<not> list_ex (\<lambda>(m, rest). rest = [])
          (map (\<lambda>n. (take n s, drop n s)) (rev [1..<length (takeWhile word_char s)]))"
    by (auto simp: list_ex_iff)
  then have "fullmatch_word_plus s \<longleftrightarrow> dropWhile word_char s = []"
    using False by (simp add: fullmatch_word_plus_def greedy_plus_longest)
  also have "\<dots> \<longleftrightarrow> list_all word_char s" by (simp add: list_all_iff)
  also have "\<dots> \<longleftrightarrow> spec_name s" using False by (auto simp: spec_name_def)
  finally show ?thesis .
qed

lemma classify_file_name: "classify_file f = Some (r, X) \<Longrightarrow> spec_name X"
  by (cases r)
    (auto simp: classify_file_Some source_pattern_def raw_pattern_def tidy_pattern_def
       sidecar_pattern_def inv_pattern_Some not_word_dash not_word_dot)

lemma foldl_invariant:
  assumes "P st" "\<And>st x. P st \<Longrightarrow> x \<in> set xs \<Longrightarrow> P (f st x)"
  shows "P (foldl f st xs)"
  using assms by (induction xs arbitrary: st) auto

lemma keys_setdefault: "fst ` set (setdefault k v d) = insert k (fst ` set d)"
  by (auto simp: setdefault_def)

lemma keys_add_file: "fst ` set (add_file X r f invs) = insert X (fst ` set invs)"
proof -
  have "fst ` set (add_file X r f invs) = fst ` set (setdefault X empty_files invs)"
    by (force simp: add_file_def split: if_splits)
  then show ?thesis by (simp add: keys_setdefault)
qed

lemma keys_classify_step:
  "fst ` set (fst (classify_step d st f)) =
     fst ` set (fst st) \<union>
     {X. f \<notin> {''.gitignore'', ''.DS_Store''} \<and> isfile (map_of d f) \<and>
         map_option snd (classify_file f) = Some X}"
  by (cases st) (auto simp: classify_step_def keys_add_file split: option.splits)



lemma names_classify_step:
  assumes "\<forall>(k, b)\<in>set (fst st). spec_name k"
  shows "\<forall>(k, b)\<in>set (fst (classify_step d st f)). spec_name k"
proof -
  have "\<forall>k\<in>fst ` set (fst (classify_step d st f)). spec_name k"
    unfolding keys_classify_step using assms
    by (auto dest: classify_file_name)
  then show ?thesis by force
qed

lemma names_discovered: "(k, b) \<in> set (fst (discovered d errors)) \<Longrightarrow> spec_name k"
proof -
  have "\<forall>(k, b)\<in>set (fst (foldl (classify_step d) ([], errors) (listdir d))). spec_name k"
    by (rule foldl_invariant [where P = "\<lambda>st. \<forall>(k, b)\<in>set (fst st). spec_name k"])
      (simp, rule names_classify_step)
  then show "(k, b) \<in> set (fst (discovered d errors)) \<Longrightarrow> spec_name k"
    by (auto simp: discovered_def)
qed

lemma filter_target_subset:
  "set (fst (filter_target target_inv (invs, errors))) \<subseteq> set invs"
  by (auto simp: filter_target_def split: option.splits dest: map_of_SomeD)

lemmas classify_eval =
  classify_file_def source_pattern_def raw_pattern_def tidy_pattern_def sidecar_pattern_def
  inv_pattern_def greedy_plus_def literal_def word_char_def any_plus_end_def at_end_def newline_def

lemmas grouping_eval =
  root_checks_def discovered_def listdir_def subfolder_step_def classify_step_def add_file_def
  setdefault_def empty_files_def filter_target_def requested_def

lemma example_root_checks:
  "root_checks example_project example_data =
     ([(''trial'', \<lparr>source = [], raw = [''trial-raw.csv''], tidy = [''trial.tsv''],
                    sidecar = [''trial.yml'']\<rparr>)],
      [''Project root must contain a README.md file.'', subfolder_error ''old'',
       unmatched_error ''notes.txt''])"
  by (simp add: example_project_def example_data_def grouping_eval classify_eval)

text \<open>
  Claim C2. An investigation of the working set (one grouped by the classification, after
  the target filter) whose lists hold exactly one raw file, one tidy file, one sidecar
  file and at most one source file adds nothing to the errors in the loop of the
  structural rules; with no source file in particular.
\<close>

theorem structure_step_complete:
  assumes "(inv_name, files_dict) \<in> set (fst (filter_target target_inv (root_checks p d)))"
    and "length (raw files_dict) = 1" and "length (tidy files_dict) = 1"
    and "length (sidecar files_dict) = 1" and "length (source files_dict) \<le> 1"
  shows "structure_step errors (inv_name, files_dict) = errors"
proof -
  have "(inv_name, files_dict) \<in> set (fst (root_checks p d))"
    using assms(1) filter_target_subset [of target_inv "fst (root_checks p d)" "snd (root_checks p d)"]
    by auto
  then have "spec_name inv_name" by (auto simp: root_checks_def dest: names_discovered)
  then show ?thesis using assms(2-5)
    by (simp add: structure_step_def fullmatch_word_plus_iff)
qed

theorem structure_step_complete_witness:
  "(''trial'', \<lparr>source = [], raw = [''trial-raw.csv''], tidy = [''trial.tsv''],
                sidecar = [''trial.yml'']\<rparr>)
     \<in> set (fst (filter_target None (root_checks example_project example_data))) \<and>
   structure_step [''earlier'']
     (''trial'', \<lparr>source = [], raw = [''trial-raw.csv''], tidy = [''trial.tsv''],
                  sidecar = [''trial.yml'']\<rparr>) = [''earlier'']"
proof -
  have "(''trial'', \<lparr>source = [], raw = [''trial-raw.csv''], tidy = [''trial.tsv''],
                sidecar = [''trial.yml'']\<rparr>)
     \<in> set (fst (filter_target None (root_checks example_project example_data)))"
    by (simp add: example_root_checks filter_target_def requested_def)
  then show ?thesis
    using structure_step_complete [of "''trial''" _ None example_project example_data "[''earlier'']"]
    by simp
qed

section \<open>A requested investigation that is absent\<close>




lemma errors_classify_step:
  "e \<in> set (snd (classify_step d st f)) \<Longrightarrow> e \<in> set (snd st) \<or> e = unmatched_error f"
  by (cases st) (auto simp: classify_step_def split: option.splits if_splits)





section \<open>Properties of load_yaml_fields\<close>

lemma field_step_pair:
  "field_step (fs, ws) (k, v) =
     (case v of Mapping attrs \<Rightarrow> (fs @ [dict_update [(SStr ''name'', Scalar k)] attrs], ws)
              | _ \<Rightarrow> (fs, ws @ [skipped_warning k]))"
  by (simp add: field_step_def)

lemma fields_loop:
  "foldl field_step (fs, ws) items =
     (fs @ concat (map (\<lambda>(k, v). case v of Mapping attrs \<Rightarrow> [dict_update [(SStr ''name'', Scalar k)] attrs]
                                      | _ \<Rightarrow> []) items),
      ws @ concat (map (\<lambda>(k, v). case v of Mapping attrs \<Rightarrow> [] | _ \<Rightarrow> [skipped_warning k]) items))"
proof (induction items arbitrary: fs ws)
  case Nil
  then show ?case by simp
next
  case (Cons item items)
  obtain k v where item: "item = (k, v)" by (cases item)
  show ?case unfolding item foldl_Cons
    by (cases v) (simp_all add: field_step_pair Cons.IH)
qed

lemma dict_set_new: "k \<notin> fst ` set d \<Longrightarrow> dict_set d k v = d @ [(k, v)]"
  by (induction d) auto

lemma dict_update_name:
  assumes "distinct (map fst e)" "n \<notin> fst ` set d" "fst ` set d \<inter> fst ` set e = {}"
  shows "dict_update ((n, v) # d) e =
           (n, case map_of e n of None \<Rightarrow> v | Some w \<Rightarrow> w) # d @ filter (\<lambda>(k, w). k \<noteq> n) e"
  using assms
proof (induction e arbitrary: v d)
  case Nil
  then show ?case by (simp add: dict_update_def)
next
  case (Cons kw e)
  obtain k w where kw: "kw = (k, w)" by (cases kw)
  have step: "dict_update ((n, v) # d) ((k, w) # e) = dict_update (dict_set ((n, v) # d) k w) e"
    by (simp add: dict_update_def)
  show ?case
  proof (cases "k = n")
    case True
    then have none: "map_of e n = None" using Cons.prems(1) kw by (simp add: map_of_eq_None_iff)
    have "dict_update ((n, w) # d) e =
        (n, case map_of e n of None \<Rightarrow> w | Some w' \<Rightarrow> w') # d @ filter (\<lambda>(k, w). k \<noteq> n) e"
      using Cons.prems kw by (intro Cons.IH) auto
    then show ?thesis unfolding kw step using True none by simp
  next
    case False
    have new: "k \<notin> fst ` set d" using Cons.prems(3) kw by auto
    have "dict_update ((n, v) # d @ [(k, w)]) e =
        (n, case map_of e n of None \<Rightarrow> v | Some w' \<Rightarrow> w') # (d @ [(k, w)]) @ filter (\<lambda>(k, w). k \<noteq> n) e"
      using Cons.prems kw False by (intro Cons.IH) auto
    then show ?thesis unfolding kw step using False new by (simp add: dict_set_new)
  qed
qed

text \<open>
  Claim C3. When the sidecar parses to a mapping whose values are all mappings, the loader
  prints nothing and returns one field per top-level key, in the order of the keys. Each
  field starts with the attribute \<open>name\<close>, whose value is the key, unless the key's own
  mapping declares \<open>name\<close>: then it is the declared value. The other attributes of the
  key's mapping follow in their order. The example of the specification gives the two
  fields it states, in that order.
\<close>

theorem load_yaml_fields_mappings:
  assumes "parse_sidecar yaml yml_file e = Inr (Mapping items)"
    and "\<forall>(k, v)\<in>set items. is_dict v"
  shows "load_yaml_fields yaml yml_file e =
           ([], Inr (map (\<lambda>(k, v). case v of Mapping attrs \<Rightarrow>
                            (SStr ''name'', case map_of attrs (SStr ''name'') of
                                              None \<Rightarrow> Scalar k | Some declared \<Rightarrow> declared) #
                            filter (\<lambda>(a, w). a \<noteq> SStr ''name'') attrs) items)) \<and>
         (Mapping items = example_sidecar \<longrightarrow>
            load_yaml_fields yaml yml_file e =
              ([], Inr [[(SStr ''name'', Scalar (SStr ''col_a'')), (SStr ''type'', Scalar (SStr ''string''))],
                        [(SStr ''name'', Scalar (SStr ''col_b'')), (SStr ''type'', Scalar (SStr ''integer''))]]))"
proof -
  have fs: "concat (map (\<lambda>(k, v). case v of Mapping attrs \<Rightarrow> [dict_update [(SStr ''name'', Scalar k)] attrs]
                                      | _ \<Rightarrow> []) items) =
        map (\<lambda>(k, v). case v of Mapping attrs \<Rightarrow>
                            (SStr ''name'', case map_of attrs (SStr ''name'') of
                                              None \<Rightarrow> Scalar k | Some declared \<Rightarrow> declared) #
                            filter (\<lambda>(a, w). a \<noteq> SStr ''name'') attrs) items"
    using assms(2)
  proof (induction items)
    case Nil
    then show ?case by simp
  next
    case (Cons item items)
    obtain k v where item: "item = (k, v)" by (cases item)
    then obtain attrs where v: "v = Mapping attrs" "distinct (map fst attrs)"
      using Cons.prems by (cases v) auto
    show ?case using Cons item v dict_update_name [of attrs "SStr ''name''" "[]" "Scalar k"]
      by simp
  qed
  have ws: "concat (map (\<lambda>(k, v). case v of Mapping attrs \<Rightarrow> [] | _ \<Rightarrow> [skipped_warning k]) items) = []"
    using assms(2) by (induction items) (auto split: yaml_value.splits)
  have main: "load_yaml_fields yaml yml_file e =
           ([], Inr (map (\<lambda>(k, v). case v of Mapping attrs \<Rightarrow>
                            (SStr ''name'', case map_of attrs (SStr ''name'') of
                                              None \<Rightarrow> Scalar k | Some declared \<Rightarrow> declared) #
                            filter (\<lambda>(a, w). a \<noteq> SStr ''name'') attrs) items))"
    using assms(1) by (simp add: load_yaml_fields_def fields_loop fs ws)
  moreover have "load_yaml_fields yaml yml_file e =
              ([], Inr [[(SStr ''name'', Scalar (SStr ''col_a'')), (SStr ''type'', Scalar (SStr ''string''))],
                        [(SStr ''name'', Scalar (SStr ''col_b'')), (SStr ''type'', Scalar (SStr ''integer''))]])"
    if "Mapping items = example_sidecar"
    using that main by (auto simp: example_sidecar_def)
  ultimately show ?thesis by blast
qed

theorem load_yaml_fields_mappings_witness:
  "parse_sidecar (Some (\<lambda>path bs. Inr example_sidecar)) ''/work/study/data/trial.yml''
     (map_of example_data ''trial.yml'') = Inr example_sidecar \<and>
   list_all (\<lambda>(k, v). is_dict v)
     [(SStr ''col_a'', Mapping [(SStr ''type'', Scalar (SStr ''string''))]),
      (SStr ''col_b'', Mapping [(SStr ''type'', Scalar (SStr ''integer''))])] \<and>
   load_yaml_fields (Some (\<lambda>path bs. Inr example_sidecar)) ''/work/study/data/trial.yml''
     (map_of example_data ''trial.yml'') =
     ([], Inr [[(SStr ''name'', Scalar (SStr ''col_a'')), (SStr ''type'', Scalar (SStr ''string''))],
               [(SStr ''name'', Scalar (SStr ''col_b'')), (SStr ''type'', Scalar (SStr ''integer''))]])"
proof -
  have p: "parse_sidecar (Some (\<lambda>path bs. Inr example_sidecar)) ''/work/study/data/trial.yml''
     (map_of example_data ''trial.yml'') =
     Inr (Mapping [(SStr ''col_a'', Mapping [(SStr ''type'', Scalar (SStr ''string''))]),
                   (SStr ''col_b'', Mapping [(SStr ''type'', Scalar (SStr ''integer''))])])"
    by (simp add: parse_sidecar_def example_data_def example_sidecar_def)
  have d: "\<forall>(k, v)\<in>set [(SStr ''col_a'', Mapping [(SStr ''type'', Scalar (SStr ''string''))]),
                   (SStr ''col_b'', Mapping [(SStr ''type'', Scalar (SStr ''integer''))])]. is_dict v"
    by simp
  show ?thesis using load_yaml_fields_mappings [OF p d] p d
    by (simp add: example_sidecar_def)
qed

text \<open>
  Claim C7. The loader ends with \<open>sys.exit\<close> exactly when the \<open>try\<close> block around
  opening and parsing the sidecar raises, or the parsed root is not a mapping. When the
  root is a mapping the loader returns: every key whose value is a mapping gives one
  field, every other key gives no field and one warning, whose text holds the key: a
  string key as it is, the other scalars as \<open>str\<close> prints them (\<open>0\<close>, \<open>True\<close>, \<open>False\<close>,
  \<open>None\<close>).
\<close>

theorem load_yaml_fields_fatal_iff:
  "((\<exists>msg. snd (load_yaml_fields yaml yml_file e) = Inl msg) \<longleftrightarrow>
      (\<exists>msg. parse_sidecar yaml yml_file e = Inl msg) \<or>
      (\<exists>root. parse_sidecar yaml yml_file e = Inr root \<and> \<not> is_mapping root)) \<and>
   (parse_sidecar yaml yml_file e = Inr (Mapping items) \<longrightarrow>
      load_yaml_fields yaml yml_file e =
        (concat (map (\<lambda>(k, v). if is_mapping v then []
                                else [''Warning: Field '' @ [CHR 0x27] @ str_scalar k @ [CHR 0x27] @
                                      '' is not a mapping; skipping.'']) items),
         Inr (concat (map (\<lambda>(k, v). case v of
                             Mapping attrs \<Rightarrow> [dict_update [(SStr ''name'', Scalar k)] attrs]
                           | _ \<Rightarrow> []) items)))) \<and>
   str_scalar (SStr s) = s \<and> str_scalar (SInt 0) = ''0'' \<and> str_scalar (SBool True) = ''True'' \<and>
   str_scalar (SBool False) = ''False'' \<and> str_scalar SNull = ''None''"
proof -
  have w: "(\<lambda>(k, v). case v of Mapping attrs \<Rightarrow> [] | _ \<Rightarrow> [skipped_warning k]) =
           (\<lambda>(k, v). if is_mapping v then []
                      else [''Warning: Field '' @ [CHR 0x27] @ str_scalar k @ [CHR 0x27] @
                            '' is not a mapping; skipping.''])"
    by (auto simp: fun_eq_iff skipped_warning_def quoted_def split: yaml_value.splits)
  have "((\<exists>msg. snd (load_yaml_fields yaml yml_file e) = Inl msg) \<longleftrightarrow>
      (\<exists>msg. parse_sidecar yaml yml_file e = Inl msg) \<or>
      (\<exists>root. parse_sidecar yaml yml_file e = Inr root \<and> \<not> is_mapping root)) \<and>
   (parse_sidecar yaml yml_file e = Inr (Mapping items) \<longrightarrow>
      load_yaml_fields yaml yml_file e =
        (concat (map (\<lambda>(k, v). if is_mapping v then []
                                else [''Warning: Field '' @ [CHR 0x27] @ str_scalar k @ [CHR 0x27] @
                                      '' is not a mapping; skipping.'']) items),
         Inr (concat (map (\<lambda>(k, v). case v of
                             Mapping attrs \<Rightarrow> [dict_update [(SStr ''name'', Scalar k)] attrs]
                           | _ \<Rightarrow> []) items))))"
    by (cases "parse_sidecar yaml yml_file e"; cases "projr (parse_sidecar yaml yml_file e)")
      (auto simp: load_yaml_fields_def fields_loop w split: prod.splits)
  then show ?thesis by (simp add: str_int_def str_nat.simps digit_char_def)
qed

theorem load_yaml_fields_fatal_iff_witness:
  "parse_sidecar
     (Some (\<lambda>path bs. Inr (Mapping [(SStr ''id'', Mapping [(SStr ''name'', Scalar (SStr ''ident''))]),
                               (SInt 3, Scalar SNull)])))
     ''/work/study/data/trial.yml'' (map_of example_data ''trial.yml'') =
     Inr (Mapping [(SStr ''id'', Mapping [(SStr ''name'', Scalar (SStr ''ident''))]),
                   (SInt 3, Scalar SNull)]) \<and>
   load_yaml_fields
     (Some (\<lambda>path bs. Inr (Mapping [(SStr ''id'', Mapping [(SStr ''name'', Scalar (SStr ''ident''))]),
                               (SInt 3, Scalar SNull)])))
     ''/work/study/data/trial.yml'' (map_of example_data ''trial.yml'') =
     ([''Warning: Field '3' is not a mapping; skipping.''],
      Inr [[(SStr ''name'', Scalar (SStr ''ident''))]]) \<and>
   (\<exists>msg. snd (load_yaml_fields (Some (\<lambda>path bs. Inr (Seq []))) ''/work/study/data/trial.yml''
                  (map_of example_data ''trial.yml'')) = Inl msg)"
proof -
  let ?load = "\<lambda>(path :: string) (bs :: byte list). Inr (Mapping [(SStr ''id'', Mapping [(SStr ''name'', Scalar (SStr ''ident''))]),
                               (SInt 3, Scalar SNull)]) :: string + yaml_value"
  have p: "parse_sidecar (Some ?load) ''/work/study/data/trial.yml'' (map_of example_data ''trial.yml'') =
     Inr (Mapping [(SStr ''id'', Mapping [(SStr ''name'', Scalar (SStr ''ident''))]),
                   (SInt 3, Scalar SNull)])"
    by (simp add: parse_sidecar_def example_data_def)
  have q: "parse_sidecar (Some (\<lambda>path bs. Inr (Seq []))) ''/work/study/data/trial.yml''
             (map_of example_data ''trial.yml'') = Inr (Seq [])"
    by (simp add: parse_sidecar_def example_data_def)
  show ?thesis
    using load_yaml_fields_fatal_iff [of "Some ?load" "''/work/study/data/trial.yml''"
        "map_of example_data ''trial.yml''"
        "[(SStr ''id'', Mapping [(SStr ''name'', Scalar (SStr ''ident''))]), (SInt 3, Scalar SNull)]"]
      load_yaml_fields_fatal_iff [of "Some (\<lambda>path bs. Inr (Seq []))" "''/work/study/data/trial.yml''"
        "map_of example_data ''trial.yml''" "[]"]
      p q
    by (simp add: dict_update_def str_int_def str_nat.simps digit_char_def)
qed

section \<open>Properties of the packaging\<close>

lemma feed_chunks_all: "feed_chunks fed rest = fed @ rest"
proof (induction fed rest rule: feed_chunks.induct)
  case (1 fed rest)
  show ?case
  proof (cases "take 8192 rest = []")
    case True
    then have "rest = []" by (cases rest) auto
    then show ?thesis by (simp add: feed_chunks.simps)
  next
    case False
    then have "feed_chunks fed rest = feed_chunks (fed @ take 8192 rest) (drop 8192 rest)"
      by (subst feed_chunks.simps) (simp add: Let_def)
    also have "\<dots> = (fed @ take 8192 rest) @ drop 8192 rest"
      using False by (intro "1.IH") simp_all
    finally show ?thesis by simp
  qed
qed

lemma compute_file_info_content:
  "compute_file_info md5 tsv_path (Some (Regular (Content bs))) = Inr (length bs, md5 bs)"
  by (simp add: compute_file_info_def feed_chunks_all)

lemma file_info_absent:
  "\<not> isfile (map_of d (inv_name @ ''.tsv'')) \<Longrightarrow>
   file_info rt d data_path inv_name =
     ([missing_tsv_warning (path_join data_path (inv_name @ ''.tsv''))], Inr (0, []))"
  by (simp add: file_info_def)

lemma file_info_content:
  "map_of d (inv_name @ ''.tsv'') = Some (Regular (Content bs)) \<Longrightarrow>
   file_info rt d data_path inv_name = ([], Inr (length bs, md5_hexdigest rt bs))"
  by (simp add: file_info_def compute_file_info_content)

lemma package_one_created:
  "package_one rt d data_path c item = (w, Inr r) \<Longrightarrow> created r = c"
  by (cases item)
    (auto simp: package_one_def make_resource_def split: prod.splits sum.splits)

lemma package_one_name:
  "package_one rt d data_path c (inv_name, yml_file) = (w, Inr r) \<Longrightarrow>
     name r = inv_name \<and> path r = ''data/'' @ inv_name @ ''.tsv''"
  by (auto simp: package_one_def make_resource_def split: prod.splits sum.splits)

lemma package_loop_created:
  "package_loop rt d data_path c invs err rs = (err', Inr rs') \<Longrightarrow>
   \<forall>r\<in>set rs. created r = c \<Longrightarrow> \<forall>r\<in>set rs'. created r = c"
proof (induction invs arbitrary: err rs)
  case Nil
  then show ?case by simp
next
  case (Cons item invs)
  obtain w res where one: "package_one rt d data_path c item = (w, res)"
    by (cases "package_one rt d data_path c item")
  show ?case
  proof (cases res)
    case (Inl msg)
    then show ?thesis using Cons.prems(1) one by simp
  next
    case (Inr r)
    then have "package_loop rt d data_path c invs (err @ w) (rs @ [r]) = (err', Inr rs')"
      using Cons.prems(1) one by simp
    moreover have "\<forall>x\<in>set (rs @ [r]). created x = c"
      using Cons.prems(2) package_one_created one Inr by auto
    ultimately show ?thesis by (rule Cons.IH)
  qed
qed

lemma package_one_retimed:
  assumes "yaml_module rt2 = yaml_module rt1" "md5_hexdigest rt2 = md5_hexdigest rt1"
  shows "package_one rt2 d data_path c2 item =
           (case package_one rt1 d data_path c1 item of
              (w, Inl msg) \<Rightarrow> (w, Inl msg)
            | (w, Inr r) \<Rightarrow> (w, Inr (r\<lparr>created := c2\<rparr>)))"
proof -
  obtain inv_name yml_file where item: "item = (inv_name, yml_file)" by (cases item)
  obtain w res where fi: "file_info rt1 d data_path inv_name = (w, res)"
    by (cases "file_info rt1 d data_path inv_name")
  have "file_info rt2 d data_path inv_name = file_info rt1 d data_path inv_name"
    unfolding file_info_def assms(2) by (rule refl)
  then have fi2: "file_info rt2 d data_path inv_name = (w, res)"
    using fi by simp
  show ?thesis
  proof (cases res)
    case (Inl msg)
    then show ?thesis by (simp add: package_one_def item fi fi2)
  next
    case (Inr info)
    obtain w' res' where ld: "load_yaml_fields (yaml_module rt1) yml_file (map_of d (basename yml_file)) = (w', res')"
      by (cases "load_yaml_fields (yaml_module rt1) yml_file (map_of d (basename yml_file))")
    show ?thesis using Inr ld assms(1)
      by (cases info; cases res') (simp_all add: package_one_def item fi fi2 make_resource_def)
  qed
qed

lemma package_loop_retimed:
  assumes "yaml_module rt2 = yaml_module rt1" "md5_hexdigest rt2 = md5_hexdigest rt1"
  shows "package_loop rt2 d data_path c2 invs err (map (\<lambda>r. r\<lparr>created := c2\<rparr>) rs) =
           (case package_loop rt1 d data_path c1 invs err rs of
              (e, Inl msg) \<Rightarrow> (e, Inl msg)
            | (e, Inr rs') \<Rightarrow> (e, Inr (map (\<lambda>r. r\<lparr>created := c2\<rparr>) rs')))"
proof (induction invs arbitrary: err rs)
  case Nil
  then show ?case by simp
next
  case (Cons item invs)
  obtain w res where one: "package_one rt1 d data_path c1 item = (w, res)"
    by (cases "package_one rt1 d data_path c1 item")
  show ?case
  proof (cases res)
    case (Inl msg)
    then show ?thesis using one package_one_retimed [OF assms, of d data_path c2 item c1] by simp
  next
    case (Inr r)
    then have "package_one rt2 d data_path c2 item = (w, Inr (r\<lparr>created := c2\<rparr>))"
      using one package_one_retimed [OF assms, of d data_path c2 item c1] by simp
    then show ?thesis using one Inr Cons.IH [of "err @ w" "rs @ [r]"] by simp
  qed
qed

lemma package_loop_success:
  assumes "\<forall>item\<in>set invs. \<exists>w r. package_one rt d dp c item = (w, Inr r)"
  shows "package_loop rt d dp c invs err rs =
           (err @ concat (map (\<lambda>item. fst (package_one rt d dp c item)) invs),
            Inr (rs @ map (\<lambda>item. projr (snd (package_one rt d dp c item))) invs))"
  using assms
proof (induction invs arbitrary: err rs)
  case Nil
  then show ?case by simp
next
  case (Cons item invs)
  obtain w r where one: "package_one rt d dp c item = (w, Inr r)" using Cons.prems by auto
  have "package_loop rt d dp c invs (err @ w) (rs @ [r]) =
           ((err @ w) @ concat (map (\<lambda>item. fst (package_one rt d dp c item)) invs),
            Inr ((rs @ [r]) @ map (\<lambda>item. projr (snd (package_one rt d dp c item))) invs))"
    using Cons.prems by (intro Cons.IH) simp
  then show ?case using one by simp
qed

lemma package_one_ok:
  assumes "load_yaml_fields (yaml_module rt) yml_file (map_of d (basename yml_file)) = (w', Inr fs)"
    and "\<forall>msg. map_of d (inv_name @ ''.tsv'') \<noteq> Some (Regular (Unreadable msg))"
  shows "\<exists>w b h. package_one rt d dp c (inv_name, yml_file) = (w @ w', Inr (make_resource inv_name b h fs c)) \<and>
           (\<not> isfile (map_of d (inv_name @ ''.tsv'')) \<longrightarrow>
              b = 0 \<and> h = [] \<and> w = [missing_tsv_warning (path_join dp (inv_name @ ''.tsv''))])"
proof (cases "isfile (map_of d (inv_name @ ''.tsv''))")
  case False
  then show ?thesis using assms(1) by (simp add: package_one_def file_info_absent)
next
  case True
  then obtain f where "map_of d (inv_name @ ''.tsv'') = Some (Regular f)"
    by (cases "map_of d (inv_name @ ''.tsv'')" rule: isfile.cases) auto
  then obtain bs where "map_of d (inv_name @ ''.tsv'') = Some (Regular (Content bs))"
    using assms(2) by (cases f) auto
  then have "package_one rt d dp c (inv_name, yml_file) =
      ([] @ w', Inr (make_resource inv_name (length bs) (md5_hexdigest rt bs) fs c))"
    using assms(1) by (simp add: package_one_def file_info_content)
  then show ?thesis using True by blast
qed

lemma digit_char_digit: "d < 10 \<Longrightarrow> is_digit (digit_char d)"
proof -
  assume "d < 10"
  then have "d \<in> {0, 1, 2, 3, 4, 5, 6, 7, 8, 9}" by auto
  then show ?thesis by (auto simp: digit_char_def is_digit_def)
qed

lemma str_nat_1: "n < 10 \<Longrightarrow> str_nat n = [digit_char n]"
  by (simp add: str_nat.simps)

lemma str_nat_2: "10 \<le> n \<Longrightarrow> n < 100 \<Longrightarrow> str_nat n = [digit_char (n div 10), digit_char (n mod 10)]"
  by (subst str_nat.simps) (simp add: str_nat_1)

lemma str_nat_3:
  "100 \<le> n \<Longrightarrow> n < 1000 \<Longrightarrow>
   str_nat n = [digit_char (n div 10 div 10), digit_char (n div 10 mod 10), digit_char (n mod 10)]"
  by (subst str_nat.simps) (simp add: str_nat_2)

lemma str_nat_4:
  "1000 \<le> n \<Longrightarrow> n < 10000 \<Longrightarrow>
   str_nat n = [digit_char (n div 10 div 10 div 10), digit_char (n div 10 div 10 mod 10),
                digit_char (n div 10 mod 10), digit_char (n mod 10)]"
  by (subst str_nat.simps) (simp add: str_nat_3)

lemma two_digits_shape:
  "n < 100 \<Longrightarrow> map (\<lambda>c. if is_digit c then CHR ''9'' else c) (two_digits n) = ''99''"
proof -
  assume n: "n < 100"
  then have "n div 10 < 10" by simp
  then have d: "is_digit (digit_char (n div 10))" "is_digit (digit_char (n mod 10))"
    by (simp_all add: digit_char_digit)
  have z: "is_digit CHR ''0''" by (simp add: is_digit_def)
  show ?thesis
  proof (cases "n < 10")
    case True
    then show ?thesis using digit_char_digit [of n] z
      by (simp add: two_digits_def str_nat_1)
  next
    case False
    then show ?thesis using n d by (simp add: two_digits_def str_nat_2)
  qed
qed

lemma year_shape:
  "1000 \<le> n \<Longrightarrow> n \<le> 9999 \<Longrightarrow>
   map (\<lambda>c. if is_digit c then CHR ''9'' else c) (str_nat n) = ''9999''"
proof -
  assume n: "1000 \<le> n" "n \<le> 9999"
  then have "n div 10 div 10 div 10 < 10" by simp
  then have "is_digit (digit_char (n div 10 div 10 div 10))"
    "is_digit (digit_char (n div 10 div 10 mod 10))"
    "is_digit (digit_char (n div 10 mod 10))"
    "is_digit (digit_char (n mod 10))"
    by (simp_all add: digit_char_digit)
  then show ?thesis using n by (simp add: str_nat_4)
qed

lemma separators_not_digits:
  "\<not> is_digit CHR ''-''" "\<not> is_digit CHR ''T''" "\<not> is_digit CHR '':''" "\<not> is_digit CHR ''Z''"
  by (simp_all add: is_digit_def)

lemma strftime_format: "utc_range t \<Longrightarrow> timestamp_format (strftime t)"
  by (simp add: utc_range_def timestamp_format_def strftime_def two_digits_shape year_shape
        separators_not_digits)

lemmas package_eval =
  package_investigations_def sidecars_def select_target_def requested_def listdir_def
  sidecar_step_def endswith_def splitext_def path_join_def basename_def utcnow_def
  package_one_def file_info_def compute_file_info_content load_yaml_fields_def parse_sidecar_def
  field_step_def dict_update_def strftime_def two_digits_def

lemma nine_bytes: "Suc (Suc (Suc (Suc (Suc (Suc (Suc (Suc (Suc 0)))))))) = 9"
  by simp

lemma example_run:
  "package_investigations example_runtime example_package_project None =
     ([missing_tsv_warning ''/work/study/data/my-data.tsv''], Inr example_descriptor)"
  by (simp add: example_runtime_def example_package_project_def example_package_data_def
        example_sidecar_def example_fields_def example_descriptor_def package_eval str_nat.simps
        digit_char_def Let_def nine_bytes)

lemma example_sidecars:
  "select_target None (sidecars (path_join (cwd example_package_project) ''data'') example_package_data) =
     Inr [(''trial'', ''/work/study/data/trial.yml''), (''my-data'', ''/work/study/data/my-data.yml'')]"
  by (simp add: example_package_project_def example_package_data_def package_eval)

lemma example_loads:
  "load_yaml_fields (yaml_module example_runtime) ''/work/study/data/trial.yml''
     (map_of example_package_data (basename ''/work/study/data/trial.yml'')) = ([], Inr example_fields)"
  "load_yaml_fields (yaml_module example_runtime) ''/work/study/data/my-data.yml''
     (map_of example_package_data (basename ''/work/study/data/my-data.yml'')) = ([], Inr example_fields)"
  by (simp_all add: example_runtime_def example_package_data_def example_sidecar_def
        example_fields_def package_eval)

lemma complete_run:
  assumes "data p = Some d"
    and "select_target target_inv (sidecars (path_join (cwd p) ''data'') d) = Inr invs"
    and "\<forall>(inv_name, yml_file)\<in>set invs.
           \<exists>w fs. load_yaml_fields (yaml_module rt) yml_file (map_of d (basename yml_file)) = (w, Inr fs)"
    and "\<forall>(inv_name, yml_file)\<in>set invs.
           \<forall>msg. map_of d (inv_name @ ''.tsv'') \<noteq> Some (Regular (Unreadable msg))"
    and "write_error rt = None"
  shows "\<exists>err pkg. package_investigations rt p target_inv = (err, Inr pkg) \<and>
           map name (resources pkg) = map fst invs \<and>
           (\<forall>i<length invs. \<not> isfile (map_of d (fst (invs ! i) @ ''.tsv'')) \<longrightarrow>
               bytes (resources pkg ! i) = 0 \<and> hash (resources pkg ! i) = [] \<and>
               missing_tsv_warning (path_join (path_join (cwd p) ''data'') (fst (invs ! i) @ ''.tsv''))
                 \<in> set err)"
proof -
  let ?dp = "path_join (cwd p) ''data''" and ?c = "strftime (clock rt 0)"
  let ?one = "package_one rt d ?dp ?c"
  have one: "\<exists>w w' b h fs. ?one (inv_name, yml_file) = (w @ w', Inr (make_resource inv_name b h fs ?c)) \<and>
           (\<not> isfile (map_of d (inv_name @ ''.tsv'')) \<longrightarrow>
              b = 0 \<and> h = [] \<and> w = [missing_tsv_warning (path_join ?dp (inv_name @ ''.tsv''))])"
    if mem: "(inv_name, yml_file) \<in> set invs" for inv_name yml_file
  proof -
    obtain w' fs where "load_yaml_fields (yaml_module rt) yml_file (map_of d (basename yml_file)) = (w', Inr fs)"
      using assms(3) mem by blast
    moreover have "\<forall>msg. map_of d (inv_name @ ''.tsv'') \<noteq> Some (Regular (Unreadable msg))"
      using assms(4) mem by blast
    ultimately show ?thesis using package_one_ok [of rt yml_file d w' fs inv_name ?dp ?c] by blast
  qed
  then have all: "\<forall>item\<in>set invs. \<exists>w r. ?one item = (w, Inr r)" by fastforce
  let ?err = "concat (map (\<lambda>item. fst (?one item)) invs)"
  let ?rs = "map (\<lambda>item. projr (snd (?one item))) invs"
  let ?pkg = "\<lparr>package_name = (if basename (cwd p) = [] then ''defaultdata-package'' else basename (cwd p)),
               resources = ?rs\<rparr>"
  have loop: "package_loop rt d ?dp ?c invs [] [] = (?err, Inr ?rs)"
    using package_loop_success [OF all, of "[]" "[]"] by simp
  have run: "package_investigations rt p target_inv = (?err, Inr ?pkg)"
    using assms(1,2,5) loop by (simp add: package_investigations_def utcnow_def Let_def)
  have names: "map name ?rs = map fst invs"
  proof (rule nth_equalityI)
    show "length (map name ?rs) = length (map fst invs)" by simp
  next
    fix i assume "i < length (map name ?rs)"
    then have i: "i < length invs" by simp
    obtain inv_name yml_file where item: "invs ! i = (inv_name, yml_file)" by (cases "invs ! i")
    then have "(inv_name, yml_file) \<in> set invs" using i nth_mem by metis
    from one [OF this] show "map name ?rs ! i = map fst invs ! i"
      using i item by (auto simp: make_resource_def)
  qed
  have absent: "bytes (?rs ! i) = 0 \<and> hash (?rs ! i) = [] \<and>
       missing_tsv_warning (path_join ?dp (fst (invs ! i) @ ''.tsv'')) \<in> set ?err"
    if i: "i < length invs" and no: "\<not> isfile (map_of d (fst (invs ! i) @ ''.tsv''))" for i
  proof -
    obtain inv_name yml_file where item: "invs ! i = (inv_name, yml_file)" by (cases "invs ! i")
    then have mem: "(inv_name, yml_file) \<in> set invs" using i nth_mem by metis
    from one [OF mem] no item obtain w' fs where
      o: "?one (inv_name, yml_file) =
            ([missing_tsv_warning (path_join ?dp (inv_name @ ''.tsv''))] @ w',
             Inr (make_resource inv_name 0 [] fs ?c))"
      by auto
    then have "missing_tsv_warning (path_join ?dp (inv_name @ ''.tsv'')) \<in> set (fst (?one (inv_name, yml_file)))"
      by simp
    then have "missing_tsv_warning (path_join ?dp (inv_name @ ''.tsv'')) \<in> set ?err"
      using mem by (auto simp del: fst_conv)
    then show ?thesis using i item o by (simp add: make_resource_def)
  qed
  show ?thesis using run names absent by (intro exI [of _ ?err] exI [of _ ?pkg]) simp
qed

lemma missing_tsv_text:
  "missing_tsv_warning tsv_path =
     ''Warning: TSV file '' @ [CHR 0x27] @ tsv_path @ [CHR 0x27] @ '' not found. Using placeholder values.''"
  by (simp add: missing_tsv_warning_def quoted_def)

text \<open>
  Claim C6, as amended. A tidy file that is absent is not fatal by itself: for an
  investigation whose \<open>data/<name>.tsv\<close> is not a file and whose sidecar loads, the loop
  body prints the warning that names the path and builds a resource with \<open>bytes\<close> 0 and
  an empty \<open>hash\<close>. When the sidecars of all selected investigations load, the tidy
  files that exist can be read and the descriptor can be written, the run completes and
  writes one resource per investigation, in their order; the resource of every
  investigation without a tidy file has \<open>bytes\<close> 0 and an empty \<open>hash\<close>, and the warning
  for its path was printed.
\<close>

theorem missing_tidy_file_placeholder:
  "(\<not> isfile (map_of d (inv_name @ ''.tsv'')) \<and>
    load_yaml_fields (yaml_module rt) yml_file (map_of d (basename yml_file)) = (w', Inr fs) \<longrightarrow>
      (\<exists>r. package_one rt d dp c (inv_name, yml_file) =
              ([''Warning: TSV file '' @ [CHR 0x27] @ path_join dp (inv_name @ ''.tsv'') @ [CHR 0x27] @
                '' not found. Using placeholder values.''] @ w', Inr r) \<and>
           name r = inv_name \<and> bytes r = 0 \<and> hash r = [] \<and> schema_fields r = fs)) \<and>
   (data p = Some d \<and>
    select_target target_inv (sidecars (path_join (cwd p) ''data'') d) = Inr invs \<and>
    (\<forall>(inv_name, yml_file)\<in>set invs.
       \<exists>w fs. load_yaml_fields (yaml_module rt) yml_file (map_of d (basename yml_file)) = (w, Inr fs)) \<and>
    (\<forall>(inv_name, yml_file)\<in>set invs.
       \<forall>msg. map_of d (inv_name @ ''.tsv'') \<noteq> Some (Regular (Unreadable msg))) \<and>
    write_error rt = None \<longrightarrow>
      (\<exists>err pkg. package_investigations rt p target_inv = (err, Inr pkg) \<and>
         map name (resources pkg) = map fst invs \<and>
         (\<forall>i<length invs. \<not> isfile (map_of d (fst (invs ! i) @ ''.tsv'')) \<longrightarrow>
             bytes (resources pkg ! i) = 0 \<and> hash (resources pkg ! i) = [] \<and>
             ''Warning: TSV file '' @ [CHR 0x27] @
               path_join (path_join (cwd p) ''data'') (fst (invs ! i) @ ''.tsv'') @ [CHR 0x27] @
               '' not found. Using placeholder values.'' \<in> set err)))"
proof (intro conjI impI)
  assume "\<not> isfile (map_of d (inv_name @ ''.tsv'')) \<and>
    load_yaml_fields (yaml_module rt) yml_file (map_of d (basename yml_file)) = (w', Inr fs)"
  then have "package_one rt d dp c (inv_name, yml_file) =
      ([missing_tsv_warning (path_join dp (inv_name @ ''.tsv''))] @ w',
       Inr (make_resource inv_name 0 [] fs c))"
    by (simp add: package_one_def file_info_absent)
  then show "\<exists>r. package_one rt d dp c (inv_name, yml_file) =
              ([''Warning: TSV file '' @ [CHR 0x27] @ path_join dp (inv_name @ ''.tsv'') @ [CHR 0x27] @
                '' not found. Using placeholder values.''] @ w', Inr r) \<and>
           name r = inv_name \<and> bytes r = 0 \<and> hash r = [] \<and> schema_fields r = fs"
    by (simp add: missing_tsv_text make_resource_def)
next
  assume h: "data p = Some d \<and>
    select_target target_inv (sidecars (path_join (cwd p) ''data'') d) = Inr invs \<and>
    (\<forall>(inv_name, yml_file)\<in>set invs.
       \<exists>w fs. load_yaml_fields (yaml_module rt) yml_file (map_of d (basename yml_file)) = (w, Inr fs)) \<and>
    (\<forall>(inv_name, yml_file)\<in>set invs.
       \<forall>msg. map_of d (inv_name @ ''.tsv'') \<noteq> Some (Regular (Unreadable msg))) \<and>
    write_error rt = None"
  show "\<exists>err pkg. package_investigations rt p target_inv = (err, Inr pkg) \<and>
         map name (resources pkg) = map fst invs \<and>
         (\<forall>i<length invs. \<not> isfile (map_of d (fst (invs ! i) @ ''.tsv'')) \<longrightarrow>
             bytes (resources pkg ! i) = 0 \<and> hash (resources pkg ! i) = [] \<and>
             ''Warning: TSV file '' @ [CHR 0x27] @
               path_join (path_join (cwd p) ''data'') (fst (invs ! i) @ ''.tsv'') @ [CHR 0x27] @
               '' not found. Using placeholder values.'' \<in> set err)"
  proof (rule complete_run [of p d target_inv invs rt, unfolded missing_tsv_text])
    show "data p = Some d" using h by (elim conjE)
    show "select_target target_inv (sidecars (path_join (cwd p) ''data'') d) = Inr invs"
      using h by (elim conjE)
    show "\<forall>(inv_name, yml_file)\<in>set invs.
       \<exists>w fs. load_yaml_fields (yaml_module rt) yml_file (map_of d (basename yml_file)) = (w, Inr fs)"
      using h by (elim conjE)
    show "\<forall>(inv_name, yml_file)\<in>set invs.
       \<forall>msg. map_of d (inv_name @ ''.tsv'') \<noteq> Some (Regular (Unreadable msg))"
      using h by (elim conjE)
    show "write_error rt = None" using h by (elim conjE)
  qed
qed

theorem missing_tidy_file_placeholder_witness:
  "\<not> isfile (map_of example_package_data ''my-data.tsv'') \<and>
   load_yaml_fields (yaml_module example_runtime) ''/work/study/data/my-data.yml''
     (map_of example_package_data (basename ''/work/study/data/my-data.yml'')) = ([], Inr example_fields) \<and>
   package_one example_runtime example_package_data ''/work/study/data'' ''2026-11-04T09:30:00Z''
     (''my-data'', ''/work/study/data/my-data.yml'') =
     ([''Warning: TSV file '/work/study/data/my-data.tsv' not found. Using placeholder values.''],
      Inr (make_resource ''my-data'' 0 [] example_fields ''2026-11-04T09:30:00Z'')) \<and>
   data example_package_project = Some example_package_data \<and>
   select_target None (sidecars (path_join (cwd example_package_project) ''data'') example_package_data) =
     Inr [(''trial'', ''/work/study/data/trial.yml''), (''my-data'', ''/work/study/data/my-data.yml'')] \<and>
   write_error example_runtime = None \<and>
   package_investigations example_runtime example_package_project None =
     ([''Warning: TSV file '/work/study/data/my-data.tsv' not found. Using placeholder values.''],
      Inr example_descriptor) \<and>
   bytes (resources example_descriptor ! 1) = 0 \<and> hash (resources example_descriptor ! 1) = []"
proof -
  have a: "data example_package_project = Some example_package_data"
    by (simp add: example_package_project_def)
  have c: "\<forall>(inv_name, yml_file)\<in>set [(''trial'', ''/work/study/data/trial.yml''),
                (''my-data'', ''/work/study/data/my-data.yml'')].
           \<exists>w fs. load_yaml_fields (yaml_module example_runtime) yml_file
                     (map_of example_package_data (basename yml_file)) = (w, Inr fs)"
    using example_loads by simp
  have d: "\<forall>(inv_name, yml_file)\<in>set [(''trial'', ''/work/study/data/trial.yml''),
                (''my-data'', ''/work/study/data/my-data.yml'')].
           \<forall>msg. map_of example_package_data (inv_name @ ''.tsv'') \<noteq> Some (Regular (Unreadable msg))"
    by (simp add: example_package_data_def)
  have e: "write_error example_runtime = None" by (simp add: example_runtime_def)
  have f: "\<not> isfile (map_of example_package_data ''my-data.tsv'')"
    by (simp add: example_package_data_def)
  have g: "\<not> isfile (map_of example_package_data (''my-data'' @ ''.tsv''))"
    using f by simp
  have one: "\<exists>r. package_one example_runtime example_package_data ''/work/study/data''
                  ''2026-11-04T09:30:00Z'' (''my-data'', ''/work/study/data/my-data.yml'') =
              ([''Warning: TSV file '' @ [CHR 0x27] @
                  path_join ''/work/study/data'' (''my-data'' @ ''.tsv'') @ [CHR 0x27] @
                  '' not found. Using placeholder values.''] @ [], Inr r) \<and>
           name r = ''my-data'' \<and> bytes r = 0 \<and> hash r = [] \<and> schema_fields r = example_fields"
    using missing_tidy_file_placeholder
      [where d = example_package_data and inv_name = "''my-data''" and rt = example_runtime
         and yml_file = "''/work/study/data/my-data.yml''" and w' = "[]" and fs = example_fields
         and dp = "''/work/study/data''" and c = "''2026-11-04T09:30:00Z''"]
      g example_loads(2)
    by blast
  have two: "package_one example_runtime example_package_data ''/work/study/data''
      ''2026-11-04T09:30:00Z'' (''my-data'', ''/work/study/data/my-data.yml'') =
     ([''Warning: TSV file '/work/study/data/my-data.tsv' not found. Using placeholder values.''],
      Inr (make_resource ''my-data'' 0 [] example_fields ''2026-11-04T09:30:00Z''))"
    using f example_loads(2)
    by (simp add: package_one_def file_info_absent missing_tsv_text path_join_def)
  show ?thesis
    using one two a example_sidecars e f example_loads(2) example_run
    by (simp add: example_descriptor_def make_resource_def missing_tsv_text)
qed

text \<open>
  Claim C6 as stated fails when the sidecar itself cannot be loaded: with \<open>foo.yml\<close> a
  directory and no \<open>foo.tsv\<close>, the investigation \<open>foo\<close> is discovered, the warning for
  the absent tidy file is printed, and then the run ends with the fatal message of the
  loader; no descriptor and no resource is produced.
\<close>

theorem missing_tidy_file_fatal_counterexample:
  "sidecars ''/work/study/data'' [(''foo.yml'', Directory)] = [(''foo'', ''/work/study/data/foo.yml'')] \<and>
   \<not> isfile (map_of [(''foo.yml'', Directory)] ''foo.tsv'') \<and>
   package_investigations example_runtime
     \<lparr>cwd = ''/work/study'', readme = True, data = Some [(''foo.yml'', Directory)]\<rparr> None =
     ([''Warning: TSV file '/work/study/data/foo.tsv' not found. Using placeholder values.''],
      Inl (''Error loading YAML file /work/study/data/foo.yml: [Errno 21] Is a directory: '' @
           [CHR 0x27] @ ''/work/study/data/foo.yml'' @ [CHR 0x27]))"
  by (simp add: example_runtime_def package_eval Let_def missing_tsv_text)

text \<open>
  Claim C8. In the descriptor that a run writes, every resource carries the same
  \<open>created\<close> value: the first reading of the clock of that run, taken before the loop
  and formatted once. For a date in the range of \<open>utcnow\<close> that string has the shape
  \<open>YYYY-MM-DDTHH:MM:SSZ\<close>.
\<close>

theorem single_created_timestamp:
  assumes "package_investigations rt p target_inv = (err, Inr pkg)"
  shows "(\<forall>r\<in>set (resources pkg). created r = strftime (clock rt 0)) \<and>
         (utc_range (clock rt 0) \<longrightarrow> timestamp_format (strftime (clock rt 0)))"
proof -
  obtain d where d: "data p = Some d" using assms
    by (cases "data p") (auto simp: package_investigations_def)
  obtain invs where invs: "select_target target_inv (sidecars (path_join (cwd p) ''data'') d) = Inr invs"
    using assms d
    by (cases "select_target target_inv (sidecars (path_join (cwd p) ''data'') d)")
      (auto simp: package_investigations_def)
  obtain e res where loop:
    "package_loop rt d (path_join (cwd p) ''data'') (strftime (clock rt 0)) invs [] [] = (e, res)"
    by (cases "package_loop rt d (path_join (cwd p) ''data'') (strftime (clock rt 0)) invs [] []")
  then obtain rs where rs: "res = Inr rs" "resources pkg = rs"
    using assms d invs
    by (cases res)
      (auto simp: package_investigations_def utcnow_def Let_def split: option.splits)
  have "\<forall>r\<in>set rs. created r = strftime (clock rt 0)"
    using package_loop_created [of rt d _ _ invs "[]" "[]" e rs] loop rs(1) by simp
  then show ?thesis using rs(2) strftime_format by blast
qed

theorem single_created_timestamp_witness:
  "package_investigations example_runtime example_package_project None =
     ([missing_tsv_warning ''/work/study/data/my-data.tsv''], Inr example_descriptor) \<and>
   map created (resources example_descriptor) = [''2026-11-04T09:30:00Z'', ''2026-11-04T09:30:00Z''] \<and>
   strftime (clock example_runtime 0) = ''2026-11-04T09:30:00Z'' \<and>
   utc_range (clock example_runtime 0) \<and> timestamp_format ''2026-11-04T09:30:00Z''"
proof -
  have s: "strftime (clock example_runtime 0) = ''2026-11-04T09:30:00Z''"
    by (simp add: example_runtime_def strftime_def two_digits_def str_nat.simps digit_char_def)
  have u: "utc_range (clock example_runtime 0)"
    by (simp add: example_runtime_def utc_range_def)
  show ?thesis
    using single_created_timestamp [OF example_run] example_run s u
    by (simp add: example_descriptor_def make_resource_def)
qed

text \<open>
  Claim C9. Two runs over the same project that differ only in what the clock reads print
  the same warnings and end the same way: with the same fatal message, or with
  descriptors that are equal but for the \<open>created\<close> field of their resources; \<open>bytes\<close>
  and \<open>hash\<close> are the same. For a readable tidy file the size is the length of its
  content and the digest is that of the whole content, whatever the chunking.
\<close>

theorem repeated_runs:
  assumes "yaml_module rt2 = yaml_module rt1" and "md5_hexdigest rt2 = md5_hexdigest rt1"
    and "write_error rt2 = write_error rt1"
  shows "fst (package_investigations rt2 p target_inv) = fst (package_investigations rt1 p target_inv) \<and>
         (case snd (package_investigations rt1 p target_inv) of
            Inl msg \<Rightarrow> snd (package_investigations rt2 p target_inv) = Inl msg
          | Inr pkg \<Rightarrow>
              snd (package_investigations rt2 p target_inv) =
                Inr (pkg\<lparr>resources := map (\<lambda>r. r\<lparr>created := strftime (clock rt2 0)\<rparr>) (resources pkg)\<rparr>)) \<and>
         compute_file_info (md5_hexdigest rt1) tsv_path (Some (Regular (Content bs))) =
           Inr (length bs, md5_hexdigest rt1 bs)"
proof -
  have loop: "package_loop rt2 d dp (strftime (clock rt2 0)) invs [] [] =
           (case package_loop rt1 d dp (strftime (clock rt1 0)) invs [] [] of
              (e, Inl msg) \<Rightarrow> (e, Inl msg)
            | (e, Inr rs') \<Rightarrow> (e, Inr (map (\<lambda>r. r\<lparr>created := strftime (clock rt2 0)\<rparr>) rs')))" for d dp invs
    using package_loop_retimed [OF assms(1,2), of d dp "strftime (clock rt2 0)" invs "[]" "[]"]
    by simp
  have "fst (package_investigations rt2 p target_inv) = fst (package_investigations rt1 p target_inv) \<and>
         (case snd (package_investigations rt1 p target_inv) of
            Inl msg \<Rightarrow> snd (package_investigations rt2 p target_inv) = Inl msg
          | Inr pkg \<Rightarrow>
              snd (package_investigations rt2 p target_inv) =
                Inr (pkg\<lparr>resources := map (\<lambda>r. r\<lparr>created := strftime (clock rt2 0)\<rparr>) (resources pkg)\<rparr>))"
    by (auto simp: package_investigations_def utcnow_def Let_def loop assms(3)
          split: option.splits sum.splits prod.splits)
  then show ?thesis by (simp add: compute_file_info_content)
qed

theorem repeated_runs_witness:
  "yaml_module example_later_runtime = yaml_module example_runtime \<and>
   md5_hexdigest example_later_runtime = md5_hexdigest example_runtime \<and>
   write_error example_later_runtime = write_error example_runtime \<and>
   package_investigations example_later_runtime example_package_project None =
     ([missing_tsv_warning ''/work/study/data/my-data.tsv''],
      Inr \<lparr>package_name = ''study'',
           resources =
             [make_resource ''trial'' 9 ''digest-of-9-bytes'' example_fields ''2026-11-05T17:08:59Z'',
              make_resource ''my-data'' 0 [] example_fields ''2026-11-05T17:08:59Z'']\<rparr>)"
proof -
  have a: "yaml_module example_later_runtime = yaml_module example_runtime"
    and b: "md5_hexdigest example_later_runtime = md5_hexdigest example_runtime"
    and c: "write_error example_later_runtime = write_error example_runtime"
    by (simp_all add: example_later_runtime_def)
  have s: "strftime (clock example_later_runtime 0) = ''2026-11-05T17:08:59Z''"
    by (simp add: example_later_runtime_def strftime_def two_digits_def str_nat.simps digit_char_def)
  have "package_investigations example_later_runtime example_package_project None =
     (fst (package_investigations example_later_runtime example_package_project None),
      snd (package_investigations example_later_runtime example_package_project None))"
    by simp
  then show ?thesis
    using repeated_runs [OF a b c, of example_package_project None] a b c s example_run
    by (simp add: example_descriptor_def make_resource_def)
qed

section \<open>Discovery of sidecars in package mode\<close>

lemma dict_set_keys:
  "map fst (dict_set d k v) = (if k \<in> fst ` set d then map fst d else map fst d @ [k])"
  by (induction d) (auto split: if_splits)

lemma keys_dict_set: "fst ` set (dict_set d k v) = insert k (fst ` set d)"
proof -
  have "fst ` set (dict_set d k v) = set (map fst (dict_set d k v))" by simp
  also have "\<dots> = insert k (fst ` set d)" unfolding dict_set_keys by auto
  finally show ?thesis .
qed

lemma keys_sidecars_fold:
  "fst ` set (foldl (sidecar_step dp) acc fs) =
     fst ` set acc \<union> {fst (splitext f) | f. f \<in> set fs \<and> endswith f ''.yml''}"
proof (induction fs arbitrary: acc)
  case Nil
  then show ?case by simp
next
  case (Cons f fs)
  show ?case unfolding foldl_Cons Cons.IH
    by (auto simp: sidecar_step_def keys_dict_set)
qed

lemma keys_sidecars:
  "f \<in> set (listdir d) \<Longrightarrow> endswith f ''.yml'' \<Longrightarrow> fst (splitext f) \<in> fst ` set (sidecars dp d)"
  unfolding sidecars_def keys_sidecars_fold by auto

lemma package_loop_names:
  "package_loop rt d dp c invs err rs = (err', Inr rs') \<Longrightarrow>
   map (\<lambda>r. (name r, path r)) rs' =
     map (\<lambda>r. (name r, path r)) rs @ map (\<lambda>(k, y). (k, ''data/'' @ k @ ''.tsv'')) invs"
proof (induction invs arbitrary: err rs)
  case Nil
  then show ?case by simp
next
  case (Cons item invs)
  obtain k y where item: "item = (k, y)" by (cases item)
  obtain w res where one: "package_one rt d dp c (k, y) = (w, res)"
    by (cases "package_one rt d dp c (k, y)")
  show ?case
  proof (cases res)
    case (Inl msg)
    then show ?thesis using Cons.prems one item by simp
  next
    case (Inr r)
    then have "package_loop rt d dp c invs (err @ w) (rs @ [r]) = (err', Inr rs')"
      using Cons.prems one item by simp
    then have "map (\<lambda>r. (name r, path r)) rs' =
        map (\<lambda>r. (name r, path r)) (rs @ [r]) @ map (\<lambda>(k, y). (k, ''data/'' @ k @ ''.tsv'')) invs"
      by (rule Cons.IH)
    then show ?thesis using package_one_name [of rt d dp c k y w r] one Inr item by simp
  qed
qed

lemma yml_stem: "endswith f ''.yml'' \<Longrightarrow> f = take (length f - 4) f @ ''.yml''"
proof -
  assume "endswith f ''.yml''"
  then have d: "drop (length f - 4) f = ''.yml''" by (simp add: endswith_def eval_nat_numeral)
  have "f = take (length f - 4) f @ drop (length f - 4) f" by simp
  then show ?thesis unfolding d .
qed

lemma splitext_yml:
  "fst (splitext (stem @ ''.yml'')) =
     (if list_ex (\<lambda>c. c \<noteq> CHR ''.'') stem then stem else stem @ ''.yml'')"
  by (simp add: splitext_def)

lemma not_sidecar_or_tidy:
  assumes "\<not> list_all word_char stem"
  shows "sidecar_pattern (stem @ ''.yml'') = None" "tidy_pattern (stem @ ''.yml'') = None"
proof -
  show "sidecar_pattern (stem @ ''.yml'') = None"
  proof (rule ccontr)
    assume "sidecar_pattern (stem @ ''.yml'') \<noteq> None"
    then obtain X E where X: "list_all word_char X" "stem @ ''.yml'' = X @ ''.yml'' @ E" "at_end E"
      by (auto simp: sidecar_pattern_def inv_pattern_Some not_word_dot spec_name_def)
    from X(2) have "rev (stem @ ''.yml'') = rev (X @ ''.yml'' @ E)" by simp
    then show False using X(1,3) assms by (auto simp: at_end_def newline_def)
  qed
  show "tidy_pattern (stem @ ''.yml'') = None"
  proof (rule ccontr)
    assume "tidy_pattern (stem @ ''.yml'') \<noteq> None"
    then obtain X E where X: "stem @ ''.yml'' = X @ ''.tsv'' @ E" "at_end E"
      by (auto simp: tidy_pattern_def inv_pattern_Some not_word_dot)
    from X(1) have "rev (stem @ ''.yml'') = rev (X @ ''.tsv'' @ E)" by simp
    then show False using X(2) by (auto simp: at_end_def newline_def)
  qed
qed

text \<open>
  Claim C10, as amended. In a run without a target that completes, every entry of
  \<open>data/\<close> whose name ends in \<open>.yml\<close> has a resource whose name is the root that
  \<open>os.path.splitext\<close> gives for the entry and whose path is built from it; no raw,
  source or tidy companion is asked for. That root is the name without \<open>.yml\<close>, unless
  nothing but dots comes before \<open>.yml\<close>: then it is the whole name. When the part
  before \<open>.yml\<close> has a character outside \<open>[A-Za-z0-9_]\<close>, the classification of check
  mode never takes the file for a sidecar or a tidy file: it leaves it unmatched, or
  takes it for a source or raw file.
\<close>

theorem yml_entries_are_packaged:
  assumes "data p = Some d" and "requested target_inv = None"
    and "f \<in> set (listdir d)" and "endswith f ''.yml''"
    and "package_investigations rt p target_inv = (err, Inr pkg)"
  shows "(\<exists>r\<in>set (resources pkg).
            name r = fst (splitext f) \<and> path r = ''data/'' @ fst (splitext f) @ ''.tsv'') \<and>
         fst (splitext f) =
           (if list_ex (\<lambda>c. c \<noteq> CHR ''.'') (take (length f - 4) f) then take (length f - 4) f else f) \<and>
         (\<not> list_all word_char (take (length f - 4) f) \<longrightarrow>
            classify_file f = None \<or> (\<exists>X. classify_file f = Some (Source, X)) \<or>
            (\<exists>X. classify_file f = Some (Raw, X)))"
proof (intro conjI impI)
  let ?dp = "path_join (cwd p) ''data''"
  have sel: "select_target target_inv (sidecars ?dp d) = Inr (sidecars ?dp d)"
    using assms(2) by (simp add: select_target_def)
  obtain e res where loop:
    "package_loop rt d ?dp (strftime (clock rt 0)) (sidecars ?dp d) [] [] = (e, res)"
    by (cases "package_loop rt d ?dp (strftime (clock rt 0)) (sidecars ?dp d) [] []")
  then obtain rs where rs: "res = Inr rs" "resources pkg = rs"
    using assms(1,5) sel
    by (cases res) (auto simp: package_investigations_def utcnow_def Let_def split: option.splits)
  have "map (\<lambda>r. (name r, path r)) rs = map (\<lambda>(k, y). (k, ''data/'' @ k @ ''.tsv'')) (sidecars ?dp d)"
    using package_loop_names [of rt d ?dp _ "sidecars ?dp d" "[]" "[]" e rs] loop rs(1) by simp
  moreover obtain y where "(fst (splitext f), y) \<in> set (sidecars ?dp d)"
    using keys_sidecars [OF assms(3,4), of ?dp] by auto
  ultimately have "(fst (splitext f), ''data/'' @ fst (splitext f) @ ''.tsv'') \<in> set (map (\<lambda>r. (name r, path r)) rs)"
    by force
  then show "\<exists>r\<in>set (resources pkg).
            name r = fst (splitext f) \<and> path r = ''data/'' @ fst (splitext f) @ ''.tsv''"
    using rs(2) by auto
next
  show "fst (splitext f) =
           (if list_ex (\<lambda>c. c \<noteq> CHR ''.'') (take (length f - 4) f) then take (length f - 4) f else f)"
    using splitext_yml [of "take (length f - 4) f"] yml_stem [OF assms(4)] by simp
next
  assume "\<not> list_all word_char (take (length f - 4) f)"
  then have "sidecar_pattern f = None" "tidy_pattern f = None"
    using not_sidecar_or_tidy [of "take (length f - 4) f"] yml_stem [OF assms(4)] by simp_all
  then show "classify_file f = None \<or> (\<exists>X. classify_file f = Some (Source, X)) \<or>
            (\<exists>X. classify_file f = Some (Raw, X))"
    by (auto simp: classify_file_def split: option.splits)
qed

theorem yml_entries_are_packaged_witness:
  "data example_package_project = Some example_package_data \<and> requested None = None \<and>
   ''my-data.yml'' \<in> set (listdir example_package_data) \<and> endswith ''my-data.yml'' ''.yml'' \<and>
   package_investigations example_runtime example_package_project None =
     ([missing_tsv_warning ''/work/study/data/my-data.tsv''], Inr example_descriptor) \<and>
   fst (splitext ''my-data.yml'') = ''my-data'' \<and>
   map name (resources example_descriptor) = [''trial'', ''my-data''] \<and>
   map path (resources example_descriptor) = [''data/trial.tsv'', ''data/my-data.tsv''] \<and>
   \<not> list_all word_char ''my-data'' \<and> classify_file ''my-data.yml'' = None"
proof -
  have a: "data example_package_project = Some example_package_data"
    by (simp add: example_package_project_def)
  have b: "requested None = None" by (simp add: requested_def)
  have c: "''my-data.yml'' \<in> set (listdir example_package_data)"
    by (simp add: listdir_def example_package_data_def)
  have d: "endswith ''my-data.yml'' ''.yml''" by (simp add: endswith_def)
  have e: "fst (splitext ''my-data.yml'') = ''my-data''" by (simp add: splitext_def)
  have f: "classify_file ''my-data.yml'' = None" by (simp add: classify_eval)
  have g: "\<not> list_all word_char ''my-data''" by (simp add: word_char_def)
  show ?thesis
    using yml_entries_are_packaged [OF a b c d example_run] a b c d e f g example_run
    by (simp add: example_descriptor_def make_resource_def)
qed

text \<open>
  Claim C10 as stated fails on \<open>a-raw.yml\<close>: its stem \<open>a-raw\<close> has a dash and package
  mode names the investigation \<open>a-raw\<close>, but check mode does not reject the file as
  unmatched: it is the raw file of investigation \<open>a\<close>. And for \<open>..yml\<close> the name of the
  investigation is not the file name without its last four characters.
\<close>

theorem yml_raw_counterexample:
  "endswith ''a-raw.yml'' ''.yml'' \<and> \<not> list_all word_char ''a-raw'' \<and>
   fst (splitext ''a-raw.yml'') = ''a-raw'' \<and> classify_file ''a-raw.yml'' = Some (Raw, ''a'') \<and>
   endswith ''..yml'' ''.yml'' \<and> fst (splitext ''..yml'') = ''..yml''"
  by (simp add: endswith_def splitext_def word_char_def classify_eval)

section \<open>The tab check on the tidy file\<close>

lemma readline_first_chunk:
  assumes "bs \<noteq> []" "first_chunk_line bs = Some l"
  shows "readline bs = Some l"
  using assms
  by (subst readline_def, subst readline_loop.simps)
    (auto simp: first_chunk_line_def Let_def split: option.splits if_splits)

lemma first_chunk_line_prefix:
  "take chunk_size bs' = take chunk_size bs \<Longrightarrow> first_chunk_line bs' = first_chunk_line bs"
  by (simp add: first_chunk_line_def)

lemma not_tab_separated_error_inj:
  "not_tab_separated_error a = not_tab_separated_error b \<Longrightarrow> a = b"
  by (simp add: not_tab_separated_error_def quoted_def)

lemma not_utf8_error_inj: "not_utf8_error a = not_utf8_error b \<Longrightarrow> a = b"
  by (simp add: not_utf8_error_def quoted_def)

lemma not_tab_not_utf8: "not_tab_separated_error a \<noteq> not_utf8_error b"
proof
  assume "not_tab_separated_error a = not_utf8_error b"
  then have "rev (not_tab_separated_error a) = rev (not_utf8_error b)" by simp
  then show False by (simp add: not_tab_separated_error_def not_utf8_error_def)
qed

lemma tidy_error_heads:
  "hd (not_tab_separated_error a) = CHR ''T''" "hd (not_utf8_error a) = CHR ''T''"
  "hd (read_error a msg) = CHR ''E''"
  by (simp_all add: not_tab_separated_error_def not_utf8_error_def read_error_def)

lemma check_sidecar_heads:
  "e \<in> set (check_sidecar yaml dp d f []) \<Longrightarrow> hd e \<in> {CHR ''S'', CHR ''P''}"
  by (auto simp: check_sidecar_def split: option.splits sum.splits)

lemma check_tidy_messages:
  "e \<in> set (check_tidy dp d f []) \<Longrightarrow>
     e = not_tab_separated_error f \<or> e = not_utf8_error f \<or> (\<exists>msg. e = read_error f msg)"
  by (auto simp: check_tidy_def split: option.splits sum.splits if_splits)

lemma check_tidy_acc: "check_tidy dp d f errs = errs @ check_tidy dp d f []"
  by (auto simp: check_tidy_def split: option.splits sum.splits)

lemma check_sidecar_acc: "check_sidecar yaml dp d f errs = errs @ check_sidecar yaml dp d f []"
  by (auto simp: check_sidecar_def split: option.splits sum.splits)

lemma content_step_acc: "content_step yaml dp d errs x = errs @ content_step yaml dp d [] x"
proof -
  obtain k b where x: "x = (k, b)" by (cases x)
  show ?thesis unfolding x content_step_def
    by (cases "tidy b"; cases "sidecar b")
      (simp_all add: Let_def check_tidy_acc [of dp d _ errs]
         check_sidecar_acc [of yaml dp d _ "errs"] check_sidecar_acc [of yaml dp d _ "errs @ _"]
         check_sidecar_acc [of yaml dp d _ "check_tidy dp d _ []"])
qed

lemma foldl_acc:
  assumes "\<And>e x. f e x = e @ f [] x"
  shows "foldl f e xs = e @ concat (map (f []) xs)"
proof (induction xs arbitrary: e)
  case Nil
  then show ?case by simp
next
  case (Cons x xs)
  show ?case unfolding foldl_Cons Cons.IH [of "f e x"] using assms [of e x] by simp
qed

lemma tidy_append_role:
  "tidy (append_role r f b) = (if r = Tidy then tidy b @ [f] else tidy b)"
  by (cases r) simp_all

lemma add_file_cases:
  assumes "(k, b) \<in> set (add_file X r f invs)"
  shows "(k \<noteq> X \<and> (k, b) \<in> set invs) \<or>
         (k = X \<and> (\<exists>b0. ((X, b0) \<in> set invs \<or> b0 = empty_files) \<and> b = append_role r f b0))"
  using assms by (auto simp: add_file_def setdefault_def split: if_splits)

lemma add_file_keys: "map fst (add_file X r f invs) = map fst (setdefault X empty_files invs)"
  by (auto simp: add_file_def)

lemma distinct_add_file:
  "distinct (map fst invs) \<Longrightarrow> distinct (map fst (add_file X r f invs))"
  by (auto simp: add_file_keys setdefault_def)

lemma grouped_ok_step: "grouped_ok (fst st) \<Longrightarrow> grouped_ok (fst (classify_step d st f))"
proof -
  assume ok: "grouped_ok (fst st)"
  obtain invs errs where st: "st = (invs, errs)" by (cases st)
  show ?thesis
  proof (cases "f \<notin> {''.gitignore'', ''.DS_Store''} \<and> isfile (map_of d f)")
    case False
    then show ?thesis using ok st by (auto simp: classify_step_def)
  next
    case True
    show ?thesis
    proof (cases "classify_file f")
      case None
      then show ?thesis using ok st by (auto simp: classify_step_def)
    next
      case (Some rx)
      obtain r X where rx: "rx = (r, X)" by (cases rx)
      have "classify_step d st f = (add_file X r f invs, errs)"
        using True Some rx st by (simp add: classify_step_def)
      moreover have "grouped_ok (add_file X r f invs)"
        unfolding grouped_ok_def
      proof (intro conjI ballI)
        show "distinct (map fst (add_file X r f invs))"
          using ok st by (simp add: grouped_ok_def distinct_add_file)
      next
        fix kb assume kb: "kb \<in> set (add_file X r f invs)"
        obtain k b where kb': "kb = (k, b)" by (cases kb)
        have old: "classify_file g = Some (Tidy, k')" if "(k', b') \<in> set invs" "g \<in> set (tidy b')" for k' b' g
          using ok st that by (auto simp: grouped_ok_def)
        have f: "classify_file f = Some (r, X)" using Some rx by simp
        consider "k \<noteq> X" "(k, b) \<in> set invs"
          | b0 where "k = X" "(X, b0) \<in> set invs" "b = append_role r f b0"
          | "k = X" "b = append_role r f empty_files"
          using add_file_cases [of k b X r f invs] kb kb' by auto
        then have "\<forall>g\<in>set (tidy b). classify_file g = Some (Tidy, k)"
        proof cases
          case 1
          then show ?thesis using old by blast
        next
          case 2
          then show ?thesis using old [of X b0] f by (auto simp: tidy_append_role split: if_splits)
        next
          case 3
          then show ?thesis using f by (auto simp: tidy_append_role empty_files_def split: if_splits)
        qed
        then show "case kb of (k, b) \<Rightarrow> \<forall>f\<in>set (tidy b). classify_file f = Some (Tidy, k)"
          using kb' by simp
      qed
      ultimately show ?thesis by simp
    qed
  qed
qed

lemma grouped_ok_discovered: "grouped_ok (fst (discovered d errs))"
  unfolding discovered_def
  by (rule foldl_invariant [where P = "\<lambda>st. grouped_ok (fst st)"])
    (simp add: grouped_ok_def, rule grouped_ok_step)

lemma grouped_ok_filter_target:
  "grouped_ok (fst st) \<Longrightarrow> grouped_ok (fst (filter_target target_inv st))"
  by (cases st)
    (auto simp: filter_target_def grouped_ok_def split: option.splits dest: map_of_SomeD)

lemma root_errors_heads:
  assumes "c \<notin> {CHR ''P'', CHR ''d'', CHR ''F''}"
  shows "e \<in> set (snd (root_checks p d)) \<Longrightarrow> hd e \<noteq> c"
proof -
  let ?P = "\<lambda>errs :: string list. \<forall>e\<in>set errs. hd e \<noteq> c"
  have "?P (foldl (subfolder_step d)
          (if readme p then [] else [''Project root must contain a README.md file.''])
          (listdir d))"
    using assms
    by (intro foldl_invariant [where P = ?P]) (auto simp: subfolder_step_def subfolder_error_def)
  moreover have "?P (snd (classify_step d st f))" if "?P (snd st)" for st f
  proof
    fix e assume "e \<in> set (snd (classify_step d st f))"
    then have "e \<in> set (snd st) \<or> e = unmatched_error f" by (rule errors_classify_step)
    then show "hd e \<noteq> c" using that assms by (auto simp: unmatched_error_def)
  qed
  ultimately have "?P (snd (discovered d (foldl (subfolder_step d)
          (if readme p then [] else [''Project root must contain a README.md file.''])
          (listdir d))))"
    unfolding discovered_def
    by (intro foldl_invariant [where P = "\<lambda>st. ?P (snd st)"]) simp_all
  then show "e \<in> set (snd (root_checks p d)) \<Longrightarrow> hd e \<noteq> c"
    by (simp add: root_checks_def)
qed

lemma filter_target_heads:
  assumes "\<forall>e\<in>set (snd st). hd e \<noteq> CHR ''T''"
  shows "\<forall>e\<in>set (snd (filter_target target_inv st)). hd e \<noteq> CHR ''T''"
  using assms
  by (cases st) (auto simp: filter_target_def not_found_error_def split: option.splits)

lemma structure_step_heads:
  "\<forall>e\<in>set errs. hd e \<noteq> CHR ''T'' \<Longrightarrow> \<forall>e\<in>set (structure_step errs x). hd e \<noteq> CHR ''T''"
  by (cases x) (auto simp: structure_step_def Let_def count_error_def)

lemma before_content_heads:
  "e \<in> set (foldl structure_step (snd (filter_target target_inv (root_checks p d))) invs) \<Longrightarrow>
   hd e \<noteq> CHR ''T''"
proof -
  have "\<forall>e\<in>set (snd (root_checks p d)). hd e \<noteq> CHR ''T''"
    using root_errors_heads [of "CHR ''T''"] by simp
  then have "\<forall>e\<in>set (snd (filter_target target_inv (root_checks p d))). hd e \<noteq> CHR ''T''"
    by (rule filter_target_heads)
  then have "\<forall>e\<in>set (foldl structure_step (snd (filter_target target_inv (root_checks p d))) invs).
      hd e \<noteq> CHR ''T''"
    by (intro foldl_invariant [where P = "\<lambda>errs. \<forall>e\<in>set errs. hd e \<noteq> CHR ''T''"])
      (simp_all add: structure_step_heads)
  then show "e \<in> set (foldl structure_step (snd (filter_target target_inv (root_checks p d))) invs) \<Longrightarrow>
   hd e \<noteq> CHR ''T''" by blast
qed

lemma count_concat_one:
  assumes "distinct xs" "x \<in> set xs" "count_list (f x) a = 1"
    and "\<forall>y\<in>set xs. y \<noteq> x \<longrightarrow> a \<notin> set (f y)"
  shows "count_list (concat (map f xs)) a = 1"
  using assms
proof (induction xs)
  case Nil
  then show ?case by simp
next
  case (Cons y ys)
  show ?case
  proof (cases "y = x")
    case True
    then have "x \<notin> set ys" using Cons.prems(1) by simp
    then have "\<forall>z\<in>set ys. a \<notin> set (f z)" using Cons.prems(4) by auto
    then have "a \<notin> set (concat (map f ys))" by auto
    then have "count_list (concat (map f ys)) a = 0" by (simp add: count_list_0_iff)
    then show ?thesis using True Cons.prems(3) by simp
  next
    case False
    then have "count_list (concat (map f ys)) a = 1" using Cons by auto
    moreover have "count_list (f y) a = 0" using False Cons.prems(4) by (simp add: count_list_0_iff)
    ultimately show ?thesis by simp
  qed
qed

lemma tidy_errors_differ:
  "not_tab_separated_error f \<noteq> read_error g msg" "not_utf8_error f \<noteq> read_error g msg"
  by (simp_all add: not_tab_separated_error_def not_utf8_error_def read_error_def)

lemma check_tidy_other:
  assumes "g \<noteq> f"
  shows "not_tab_separated_error f \<notin> set (check_tidy dp d g [])"
    and "not_utf8_error f \<notin> set (check_tidy dp d g [])"
proof -
  show "not_tab_separated_error f \<notin> set (check_tidy dp d g [])"
  proof
    assume "not_tab_separated_error f \<in> set (check_tidy dp d g [])"
    then consider "not_tab_separated_error f = not_tab_separated_error g"
      | "not_tab_separated_error f = not_utf8_error g"
      | msg where "not_tab_separated_error f = read_error g msg"
      using check_tidy_messages by blast
    then show False
    proof cases
      case 1
      then show False using assms not_tab_separated_error_inj by blast
    next
      case 2
      then show False using not_tab_not_utf8 by blast
    next
      case 3
      then show False using tidy_errors_differ(1) by blast
    qed
  qed
  show "not_utf8_error f \<notin> set (check_tidy dp d g [])"
  proof
    assume "not_utf8_error f \<in> set (check_tidy dp d g [])"
    then consider "not_utf8_error f = not_tab_separated_error g"
      | "not_utf8_error f = not_utf8_error g"
      | msg where "not_utf8_error f = read_error g msg"
      using check_tidy_messages by blast
    then show False
    proof cases
      case 1
      then show False using not_tab_not_utf8 [of g f] by simp
    next
      case 2
      then show False using assms not_utf8_error_inj by blast
    next
      case 3
      then show False using tidy_errors_differ(2) by blast
    qed
  qed
qed

lemma check_sidecar_other:
  "not_tab_separated_error f \<notin> set (check_sidecar yaml dp d g [])"
  "not_utf8_error f \<notin> set (check_sidecar yaml dp d g [])"
proof -
  show "not_tab_separated_error f \<notin> set (check_sidecar yaml dp d g [])"
  proof
    assume "not_tab_separated_error f \<in> set (check_sidecar yaml dp d g [])"
    then have "hd (not_tab_separated_error f) \<in> {CHR ''S'', CHR ''P''}" by (rule check_sidecar_heads)
    then show False by (simp add: tidy_error_heads)
  qed
  show "not_utf8_error f \<notin> set (check_sidecar yaml dp d g [])"
  proof
    assume "not_utf8_error f \<in> set (check_sidecar yaml dp d g [])"
    then have "hd (not_utf8_error f) \<in> {CHR ''S'', CHR ''P''}" by (rule check_sidecar_heads)
    then show False by (simp add: tidy_error_heads)
  qed
qed

lemma content_step_parts:
  "content_step yaml dp d [] (k, b) =
     (case tidy b of [] \<Rightarrow> [] | g # others \<Rightarrow> check_tidy dp d g []) @
     (case sidecar b of [] \<Rightarrow> [] | g # others \<Rightarrow> check_sidecar yaml dp d g [])"
  by (cases "tidy b"; cases "sidecar b")
    (simp_all add: content_step_def Let_def check_sidecar_acc [of yaml dp d _ "check_tidy dp d _ []"])

lemma content_step_other:
  assumes "\<forall>g\<in>set (tidy b). g \<noteq> f"
  shows "not_tab_separated_error f \<notin> set (content_step yaml dp d [] (k, b)) \<and>
         not_utf8_error f \<notin> set (content_step yaml dp d [] (k, b))"
  unfolding content_step_parts using assms
  by (cases "tidy b"; cases "sidecar b")
    (simp_all add: check_tidy_other check_sidecar_other)

lemmas readline_eval =
  readline_def readline_loop.simps utf8_decode_chunk_def lead_byte_def chunk_size_def
  newline_decode_def replace_cr_def

lemma example_tidy_root_checks:
  "root_checks (example_tidy_project bs)
     [(''trial.tsv'', Regular (Content bs)),
      (''trial.yml'', Regular (Content [0x69, 0x64, 0x3A, 0x20, 0x7B, 0x7D, 0x0A])),
      (''trial-raw.csv'', Regular (Content [0x69, 0x64, 0x2C, 0x78, 0x0A]))] =
     ([(''trial'', \<lparr>source = [], raw = [''trial-raw.csv''], tidy = [''trial.tsv''],
                    sidecar = [''trial.yml'']\<rparr>)], [])"
  by (simp add: example_tidy_project_def grouping_eval classify_eval)

lemma example_tidy_check:
  "check_project_structure (Some example_loader) (example_tidy_project bs) None =
     (case readline bs of
        None \<Rightarrow> [not_utf8_error ''trial.tsv'']
      | Some header_line \<Rightarrow>
          if 9 \<notin> set header_line then [not_tab_separated_error ''trial.tsv''] else [])"
proof -
  have d: "data (example_tidy_project bs) =
      Some [(''trial.tsv'', Regular (Content bs)),
            (''trial.yml'', Regular (Content [0x69, 0x64, 0x3A, 0x20, 0x7B, 0x7D, 0x0A])),
            (''trial-raw.csv'', Regular (Content [0x69, 0x64, 0x2C, 0x78, 0x0A]))]"
    by (simp add: example_tidy_project_def)
  show ?thesis
    by (simp add: check_project_structure_def d example_tidy_root_checks filter_target_def
          requested_def structure_step_def fullmatch_word_plus_def greedy_plus_def word_char_def
          content_step_def check_tidy_def check_sidecar_def example_loader_def split: option.splits)
qed

lemma tidy_error_texts:
  "not_tab_separated_error f =
     ''Tidy data file '' @ [CHR 0x27] @ f @ [CHR 0x27] @ '' does not appear to be tab-separated.''"
  "not_utf8_error f = ''Tidy data file '' @ [CHR 0x27] @ f @ [CHR 0x27] @ '' is not encoded in UTF-8.''"
  by (simp_all add: not_tab_separated_error_def not_utf8_error_def quoted_def)

text \<open>
  Claim C4, as amended. For an investigation of the working set whose first tidy file
  can be opened and whose first line is read without a decoding error and has no tab,
  the check reports the not-tab-separated error for that file exactly once and no
  encoding error for it. The line is read by \<open>readline\<close>, which decodes whole chunks of
  8192 bytes, so bytes after the first line can still make the read fail; when the
  line ends within the first chunk, a file that agrees with this one on that chunk
  gives the same line, whatever follows.
\<close>

theorem tidy_header_without_tab:
  assumes "data p = Some d"
    and "(inv_name, files_dict) \<in> set (fst (filter_target target_inv (root_checks p d)))"
    and "tidy files_dict = tidy_file # others"
    and "map_of d tidy_file = Some (Regular (Content bs))"
    and "readline bs = Some header_line" and "9 \<notin> set header_line"
  shows "count_list (check_project_structure yaml p target_inv)
           (''Tidy data file '' @ [CHR 0x27] @ tidy_file @ [CHR 0x27] @
            '' does not appear to be tab-separated.'') = 1 \<and>
         ''Tidy data file '' @ [CHR 0x27] @ tidy_file @ [CHR 0x27] @ '' is not encoded in UTF-8.''
           \<notin> set (check_project_structure yaml p target_inv) \<and>
         (bs \<noteq> [] \<and> first_chunk_line bs = Some header_line \<and>
          take chunk_size bs' = take chunk_size bs \<longrightarrow> readline bs' = Some header_line)"
  unfolding tidy_error_texts [symmetric]
proof (intro conjI impI)
  let ?dp = "path_join (cwd p) ''data''"
  let ?T = "not_tab_separated_error tidy_file" and ?U = "not_utf8_error tidy_file"
  let ?C = "content_step yaml ?dp d []"
  obtain invs errs2 where ft: "filter_target target_inv (root_checks p d) = (invs, errs2)"
    by (cases "filter_target target_inv (root_checks p d)")
  let ?E = "foldl structure_step errs2 invs"
  have x: "(inv_name, files_dict) \<in> set invs" using assms(2) ft by simp
  have "foldl (content_step yaml ?dp d) ?E invs = ?E @ concat (map ?C invs)"
    by (rule foldl_acc) (rule content_step_acc)
  then have check: "check_project_structure yaml p target_inv = ?E @ concat (map ?C invs)"
    using assms(1) ft by (simp add: check_project_structure_def)
  have heads: "hd e \<noteq> CHR ''T''" if "e \<in> set ?E" for e
    using before_content_heads [of e target_inv p d invs] that ft by simp
  have E: "?T \<notin> set ?E" "?U \<notin> set ?E"
    using heads [of ?T] heads [of ?U] by (auto simp: tidy_error_heads)
  have ok: "grouped_ok invs"
    using grouped_ok_filter_target [of "root_checks p d" target_inv] grouped_ok_discovered ft
    by (simp add: root_checks_def)
  have tidy: "check_tidy ?dp d tidy_file [] = [?T]"
    using assms(4,5,6) by (simp add: check_tidy_def)
  have Cx: "?C (inv_name, files_dict) =
      [?T] @ (case sidecar files_dict of [] \<Rightarrow> [] | g # others \<Rightarrow> check_sidecar yaml ?dp d g [])"
    using assms(3) tidy by (simp add: content_step_parts)
  have side: "?T \<notin> set (case sidecar files_dict of [] \<Rightarrow> [] | g # others \<Rightarrow> check_sidecar yaml ?dp d g [])"
    "?U \<notin> set (case sidecar files_dict of [] \<Rightarrow> [] | g # others \<Rightarrow> check_sidecar yaml ?dp d g [])"
    by (cases "sidecar files_dict"; simp add: check_sidecar_other)+
  have one: "count_list (?C (inv_name, files_dict)) ?T = 1" using Cx side(1) by simp
  have Ux: "?U \<notin> set (?C (inv_name, files_dict))"
    using Cx side(2) not_tab_not_utf8 [of tidy_file tidy_file] by auto
  have mine: "classify_file tidy_file = Some (Tidy, inv_name)"
    using ok x assms(3) by (auto simp: grouped_ok_def)
  have others: "?T \<notin> set (?C y) \<and> ?U \<notin> set (?C y)" if "y \<in> set invs" "y \<noteq> (inv_name, files_dict)" for y
  proof -
    obtain k b where y: "y = (k, b)" by (cases y)
    have "k \<noteq> inv_name"
      using ok x that y eq_key_imp_eq_value [of invs k b files_dict] by (auto simp: grouped_ok_def)
    moreover have "\<forall>g\<in>set (tidy b). classify_file g = Some (Tidy, k)"
      using ok that(1) y by (auto simp: grouped_ok_def)
    ultimately have "\<forall>g\<in>set (tidy b). g \<noteq> tidy_file" using mine by auto
    then show ?thesis unfolding y by (rule content_step_other)
  qed
  have "distinct invs" using ok by (auto simp: grouped_ok_def distinct_map)
  then have "count_list (concat (map ?C invs)) ?T = 1"
    using x one others by (intro count_concat_one [where x = "(inv_name, files_dict)"]) auto
  then show "count_list (check_project_structure yaml p target_inv) ?T = 1"
    using check E(1) by simp
  have "?U \<notin> set (concat (map ?C invs))" using Ux others by auto
  then show "?U \<notin> set (check_project_structure yaml p target_inv)" using check E(2) by simp
next
  assume h: "bs \<noteq> [] \<and> first_chunk_line bs = Some header_line \<and> take chunk_size bs' = take chunk_size bs"
  then have "first_chunk_line bs' = Some header_line" using first_chunk_line_prefix [of bs' bs] by simp
  moreover have "bs' \<noteq> []" using h by (auto simp: chunk_size_def)
  ultimately show "readline bs' = Some header_line" by (rule readline_first_chunk [rotated])
qed

theorem tidy_header_without_tab_witness:
  "data (example_tidy_project [0x61, 0x62, 0x0A, 0xED, 0xA0]) =
     Some [(''trial.tsv'', Regular (Content [0x61, 0x62, 0x0A, 0xED, 0xA0])),
           (''trial.yml'', Regular (Content [0x69, 0x64, 0x3A, 0x20, 0x7B, 0x7D, 0x0A])),
           (''trial-raw.csv'', Regular (Content [0x69, 0x64, 0x2C, 0x78, 0x0A]))] \<and>
   readline [0x61, 0x62, 0x0A, 0xED, 0xA0] = Some [97, 98, 10] \<and>
   first_chunk_line [0x61, 0x62, 0x0A, 0xED, 0xA0] = Some [97, 98, 10] \<and>
   9 \<notin> set [97, 98, 10 :: nat] \<and>
   count_list (check_project_structure (Some example_loader)
                 (example_tidy_project [0x61, 0x62, 0x0A, 0xED, 0xA0]) None)
     ''Tidy data file 'trial.tsv' does not appear to be tab-separated.'' = 1"
proof -
  let ?bs = "[0x61, 0x62, 0x0A, 0xED, 0xA0] :: byte list"
  let ?d = "[(''trial.tsv'', Regular (Content ?bs)),
           (''trial.yml'', Regular (Content [0x69, 0x64, 0x3A, 0x20, 0x7B, 0x7D, 0x0A])),
           (''trial-raw.csv'', Regular (Content [0x69, 0x64, 0x2C, 0x78, 0x0A]))]"
  let ?files = "\<lparr>source = [], raw = [''trial-raw.csv''], tidy = [''trial.tsv''],
                    sidecar = [''trial.yml'']\<rparr>"
  have a: "data (example_tidy_project ?bs) = Some ?d" by (simp add: example_tidy_project_def)
  have b: "(''trial'', ?files) \<in> set (fst (filter_target None (root_checks (example_tidy_project ?bs) ?d)))"
    by (simp add: example_tidy_root_checks filter_target_def requested_def)
  have c: "tidy ?files = ''trial.tsv'' # []" by simp
  have d: "map_of ?d ''trial.tsv'' = Some (Regular (Content ?bs))" by simp
  have e: "readline ?bs = Some [97, 98, 10]" by (simp add: readline_eval)
  have f: "9 \<notin> set [97, 98, 10 :: nat]" by simp
  have g: "first_chunk_line ?bs = Some [97, 98, 10]"
    by (simp add: first_chunk_line_def utf8_decode_chunk_def lead_byte_def chunk_size_def
          newline_decode_def replace_cr_def)
  show ?thesis
    using tidy_header_without_tab [OF a b c d e f, of "Some example_loader" ?bs] a e f g
    by simp
qed

text \<open>
  Claim C4 as stated fails: the files \<open>ab\n\<close> and \<open>ab\n\xff\<close> have the same first line,
  without a tab, but the invalid byte after the first line is decoded with it, so the
  second file gets the not-encoded-in-UTF-8 error and no not-tab-separated error.
\<close>

theorem tidy_header_rest_counterexample:
  "readline [0x61, 0x62, 0x0A] = Some [97, 98, 10] \<and>
   check_project_structure (Some example_loader) (example_tidy_project [0x61, 0x62, 0x0A]) None =
     [''Tidy data file 'trial.tsv' does not appear to be tab-separated.''] \<and>
   readline [0x61, 0x62, 0x0A, 0xFF] = None \<and>
   check_project_structure (Some example_loader) (example_tidy_project [0x61, 0x62, 0x0A, 0xFF]) None =
     [''Tidy data file 'trial.tsv' is not encoded in UTF-8.'']"
proof -
  have a: "readline [0x61, 0x62, 0x0A] = Some [97, 98, 10]" by (simp add: readline_eval)
  have b: "readline [0x61, 0x62, 0x0A, 0xFF] = None" by (simp add: readline_eval)
  show ?thesis by (simp add: example_tidy_check a b tidy_error_texts)
qed

end
